theory Spec2Isabelle
  imports Main
begin

unbundle bit_operations_syntax

section \<open>Token engine of \<open>lib/jwt.ts\<close>: data model\<close>

text \<open>
  The module signs and verifies compact tokens \<open>header.payload.signature\<close> with
  HMAC-SHA256. Its functions are embedded as HOL functions, one for one and under their
  own names; an \<open>async\<close> function is the function of its result.

  \<^item> A JavaScript string is a list of UTF-16 code units. A code unit below 256 is
    \<open>Latin c\<close>, the code unit \<open>256 + n\<close> is \<open>Wide n\<close>; \<open>js ''abc''\<close> is the string of the
    characters \<open>abc\<close>. A sequence of bytes (a MAC, a decoded signature) is a \<^typ>\<open>string\<close>.
  \<^item> A number is an integer (\<open>JNum\<close>) or \<open>Infinity\<close> (\<open>JInfinity\<close>). Arithmetic on doubles is
    exact while the exact result is at most \<open>2^53\<close> in magnitude; beyond, the result is the
    platform's rounding.
  \<^item> An object is the list of its own properties in the order of their enumeration, each
    key once; a property is looked up with \<^const>\<open>map_of\<close>.
  \<^item> A \<open>throw\<close> is a result \<open>Inl\<close>; the clock, the random identifier and the environment
    are arguments.
\<close>

datatype jschar = Latin char | Wide nat

type_synonym jsstring = "jschar list"

definition js :: "string \<Rightarrow> jsstring" where
  "js s = map Latin s"

datatype json =
    JNull
  | JBool bool
  | JNum int
  | JInfinity
  | JStr jsstring
  | JArr "json list"
  | JObj "(jsstring \<times> json) list"

text \<open>\<open>JWTPayload\<close>: an object, as the list of its own properties.\<close>

type_synonym JWTPayload = "(jsstring \<times> json) list"

record JWTOptions =
  algorithm :: "jsstring option"
  expiresIn :: "jsstring option"
  issuer :: "jsstring option"
  audience :: "jsstring option"
  subject :: "jsstring option"

record JWTVerifyOptions =
  v_issuer :: "jsstring option"
  v_audience :: "jsstring option"
  algorithms :: "jsstring list option"


definition no_verify_options :: JWTVerifyOptions where
  "no_verify_options = \<lparr>v_issuer = None, v_audience = None, algorithms = None\<rparr>"

text \<open>
  The built-ins the module calls but does not define are parameters:
  \<^item> \<open>JSON.stringify\<close> and \<open>JSON.parse\<close> (\<open>Inl\<close> carries the message of the \<open>SyntaxError\<close>);
  \<^item> the hash function SHA-256, from bytes to bytes (HMAC is built from it below);
  \<^item> \<open>ToNumber(s) < n\<close> and \<open>ToNumber(s) > n\<close> for a string \<open>s\<close> and an integer \<open>n\<close>;
  \<^item> \<open>String(n)\<close> for an integer of magnitude \<open>10^21\<close> or more;
  \<^item> the double nearest to an integer beyond \<open>2^53\<close> in magnitude, and \<open>parseInt\<close> of a run
    of digits whose value is beyond \<open>2^53\<close> (\<open>None\<close> is \<open>Infinity\<close>);
  \<^item> the messages of the errors the built-ins throw: \<open>atob\<close>, \<open>btoa\<close>, a property read on
    \<open>null\<close>, a conversion of an object to a primitive.
\<close>

record platform =
  json_stringify :: "json \<Rightarrow> jsstring"
  json_parse :: "jsstring \<Rightarrow> jsstring + json"
  sha256 :: "string \<Rightarrow> string"
  string_less :: "jsstring \<Rightarrow> int \<Rightarrow> bool"
  string_greater :: "jsstring \<Rightarrow> int \<Rightarrow> bool"
  number_string :: "int \<Rightarrow> jsstring"
  round_double :: "int \<Rightarrow> int option"
  parse_int_large :: "jsstring \<Rightarrow> int option"
  atob_message :: jsstring
  btoa_message :: jsstring
  type_error_message :: "jsstring \<Rightarrow> jsstring"
  primitive_error_message :: jsstring

text \<open>
  What a call reads from its surroundings: \<open>Date.now()\<close> in milliseconds,
  the value of \<open>crypto.randomUUID()\<close>, and \<open>process.env.JWT_SECRET\<close>.
\<close>

record ambient =
  date_now :: int
  random_uuid :: jsstring
  env_JWT_SECRET :: "jsstring option"

text \<open>
  Every \<open>throw\<close> that can happen inside the \<open>try\<close> blocks, one constructor for each place.
  The first ten are the module's own \<open>throw new Error(...)\<close>, with the strings that their
  template literals were filled with; the last five are thrown by \<open>atob\<close>, by \<open>btoa\<close>, by
  \<open>JSON.parse\<close>, by a property read on \<open>null\<close>, and by the conversion of an object to a
  primitive (in a template literal or a comparison).
\<close>

datatype jwt_error =
    MissingSecret
  | InvalidDuration
  | MalformedToken
  | UnsupportedAlgorithm jsstring
  | AlgorithmNotAllowed jsstring
  | InvalidSignature
  | TokenExpired
  | TokenNotYetValid
  | IssuerMismatch jsstring jsstring
  | AudienceMismatch jsstring jsstring
  | Base64Error
  | InvalidCharacter
  | JsonSyntaxError jsstring
  | NullProperty jsstring
  | NotPrimitive

section \<open>JavaScript values\<close>

text \<open>Truthiness (\<open>ToBoolean\<close>).\<close>

fun truthy :: "json \<Rightarrow> bool" where
  "truthy JNull = False"
| "truthy (JBool b) = b"
| "truthy (JNum n) = (n \<noteq> 0)"
| "truthy JInfinity = True"
| "truthy (JStr s) = (s \<noteq> [])"
| "truthy (JArr xs) = True"
| "truthy (JObj kvs) = True"

text \<open>
  A read \<open>v.name\<close> for the names the module reads (\<open>alg\<close>, \<open>exp\<close>, \<open>nbf\<close>, \<open>iss\<close>,
  \<open>aud\<close>): a \<open>TypeError\<close> on \<open>null\<close>, the own property of an object, \<open>undefined\<close> (\<open>None\<close>) on
  a boolean, number, string or array.
\<close>

fun get_prop :: "json \<Rightarrow> jsstring \<Rightarrow> jwt_error + json option" where
  "get_prop JNull k = Inl (NullProperty k)"
| "get_prop (JObj kvs) k = Inr (map_of kvs k)"
| "get_prop _ k = Inr None"

text \<open>An assignment \<open>obj.k = v\<close>: in place when the key exists, appended otherwise.\<close>

fun obj_set :: "jsstring \<Rightarrow> json \<Rightarrow> (jsstring \<times> json) list \<Rightarrow> (jsstring \<times> json) list" where
  "obj_set k v [] = [(k, v)]"
| "obj_set k v ((k', v') # r) = (if k' = k then (k, v) # r else (k', v') # obj_set k v r)"

text \<open>\<open>String(n)\<close> for a number: the decimal digits below \<open>10^21\<close>.\<close>

function digits :: "int \<Rightarrow> string" where
  "digits n = (if n < 10 then [char_of (48 + nat n)]
     else digits (n div 10) @ [char_of (48 + nat (n mod 10))])"
  by pat_completeness auto
termination
  by (relation "measure nat") auto

definition show_int :: "int \<Rightarrow> jsstring" where
  "show_int i = js (if i < 0 then CHR ''-'' # digits (- i) else digits i)"

definition js_number_string :: "platform \<Rightarrow> int \<Rightarrow> jsstring" where
  "js_number_string pf n =
     (if \<bar>n\<bar> < 1000000000000000000000 then show_int n else number_string pf n)"

fun join_comma :: "jsstring list \<Rightarrow> jsstring" where
  "join_comma [] = []"
| "join_comma [s] = s"
| "join_comma (s # t # r) = s @ js '','' @ join_comma (t # r)"

text \<open>The results of a list of evaluations, up to the first that throws.\<close>

fun sequence :: "('e + 'a) list \<Rightarrow> 'e + 'a list" where
  "sequence [] = Inr []"
| "sequence (x # xs) = (case x of Inl e \<Rightarrow> Inl e
     | Inr v \<Rightarrow> (case sequence xs of Inl e \<Rightarrow> Inl e | Inr vs \<Rightarrow> Inr (v # vs)))"

text \<open>
  \<open>String(v)\<close>, as a template literal \<open>${v}\<close> computes it. An array is joined, its \<open>null\<close>
  elements as empty strings. An object parsed from JSON has no callable property of its
  own: without an own \<open>toString\<close> it is \<open>[object Object]\<close> by the inherited method; with one,
  the conversion finds no method that returns a primitive, and throws a \<open>TypeError\<close>.
\<close>

fun js_string :: "platform \<Rightarrow> json \<Rightarrow> jwt_error + jsstring" where
  "js_string pf JNull = Inr (js ''null'')"
| "js_string pf (JBool b) = Inr (if b then js ''true'' else js ''false'')"
| "js_string pf (JNum n) = Inr (js_number_string pf n)"
| "js_string pf JInfinity = Inr (js ''Infinity'')"
| "js_string pf (JStr s) = Inr s"
| "js_string pf (JArr xs) =
     (case sequence (map (\<lambda>x. if x = JNull then Inr [] else js_string pf x) xs) of
        Inl e \<Rightarrow> Inl e
      | Inr ss \<Rightarrow> Inr (join_comma ss))"
| "js_string pf (JObj kvs) =
     (if map_of kvs (js ''toString'') = None then Inr (js ''[object Object]'')
      else Inl NotPrimitive)"

definition js_string_opt :: "platform \<Rightarrow> json option \<Rightarrow> jwt_error + jsstring" where
  "js_string_opt pf v = (case v of None \<Rightarrow> Inr (js ''undefined'') | Some x \<Rightarrow> js_string pf x)"

text \<open>
  \<open>a < n\<close> and \<open>a > n\<close> for a number \<open>n\<close>. The operand is converted to a primitive first (an
  array or an object to its string, which may throw), then to a number.
\<close>

definition js_less :: "platform \<Rightarrow> json \<Rightarrow> int \<Rightarrow> jwt_error + bool" where
  "js_less pf a n = (case a of
       JNull \<Rightarrow> Inr (0 < n)
     | JBool b \<Rightarrow> Inr ((if b then 1 else 0) < n)
     | JNum x \<Rightarrow> Inr (x < n)
     | JInfinity \<Rightarrow> Inr False
     | JStr s \<Rightarrow> Inr (string_less pf s n)
     | _ \<Rightarrow> (case js_string pf a of Inl e \<Rightarrow> Inl e | Inr s \<Rightarrow> Inr (string_less pf s n)))"

definition js_greater :: "platform \<Rightarrow> json \<Rightarrow> int \<Rightarrow> jwt_error + bool" where
  "js_greater pf a n = (case a of
       JNull \<Rightarrow> Inr (0 > n)
     | JBool b \<Rightarrow> Inr ((if b then 1 else 0) > n)
     | JNum x \<Rightarrow> Inr (x > n)
     | JInfinity \<Rightarrow> Inr True
     | JStr s \<Rightarrow> Inr (string_greater pf s n)
     | _ \<Rightarrow> (case js_string pf a of Inl e \<Rightarrow> Inl e | Inr s \<Rightarrow> Inr (string_greater pf s n)))"

text \<open>\<open>a !== s\<close> for a string \<open>s\<close>.\<close>

definition strict_neq :: "json option \<Rightarrow> jsstring \<Rightarrow> bool" where
  "strict_neq a s = (a \<noteq> Some (JStr s))"

text \<open>
  The result of an operation on doubles whose exact result is the integer \<open>n\<close>, and the sum
  and product of two numbers (\<open>None\<close> is \<open>Infinity\<close>; the factors and terms of the module are
  not negative).
\<close>

definition to_double :: "platform \<Rightarrow> int \<Rightarrow> int option" where
  "to_double pf n = (if \<bar>n\<bar> \<le> 9007199254740992 then Some n else round_double pf n)"

definition js_times :: "platform \<Rightarrow> int option \<Rightarrow> int \<Rightarrow> int option" where
  "js_times pf a k = (case a of None \<Rightarrow> None | Some x \<Rightarrow> to_double pf (x * k))"

definition js_plus :: "platform \<Rightarrow> int \<Rightarrow> int option \<Rightarrow> json" where
  "js_plus pf n a = (case a of None \<Rightarrow> JInfinity
     | Some x \<Rightarrow> (case to_double pf (n + x) of None \<Rightarrow> JInfinity | Some r \<Rightarrow> JNum r))"

text \<open>The \<open>message\<close> of each thrown error.\<close>

fun message :: "platform \<Rightarrow> jwt_error \<Rightarrow> jsstring" where
  "message pf MissingSecret = js ''JWT_SECRET environment variable is required''"
| "message pf InvalidDuration = js ''Invalid expiration time format''"
| "message pf MalformedToken = js ''Invalid JWT format''"
| "message pf (UnsupportedAlgorithm a) = js ''Unsupported algorithm: '' @ a"
| "message pf (AlgorithmNotAllowed a) = js ''Algorithm '' @ a @ js '' not allowed''"
| "message pf InvalidSignature = js ''Invalid JWT signature''"
| "message pf TokenExpired = js ''JWT has expired''"
| "message pf TokenNotYetValid = js ''JWT not yet valid''"
| "message pf (IssuerMismatch i a) = js ''Expected issuer '' @ i @ js '', got '' @ a"
| "message pf (AudienceMismatch i a) = js ''Expected audience '' @ i @ js '', got '' @ a"
| "message pf Base64Error = atob_message pf"
| "message pf InvalidCharacter = btoa_message pf"
| "message pf (JsonSyntaxError m) = m"
| "message pf (NullProperty k) = type_error_message pf k"
| "message pf NotPrimitive = primitive_error_message pf"

section \<open>The built-ins \<open>btoa\<close> and \<open>atob\<close>\<close>

text \<open>
  Base64 over the standard alphabet, first on bytes. The decoder is the forgiving one of
  \<open>atob\<close>: it drops ASCII whitespace, accepts one or two trailing \<open>=\<close> on a length that is a
  multiple of 4, rejects a length of 1 modulo 4 and any character outside the alphabet, and
  discards the bits left over.
\<close>

definition b64_char :: "nat \<Rightarrow> char" where
  "b64_char n = (if n < 26 then char_of (65 + n)
     else if n < 52 then char_of (71 + n)
     else if n < 62 then char_of (n - 4)
     else if n = 62 then CHR ''+'' else CHR ''/'')"

definition b64_val :: "char \<Rightarrow> nat option" where
  "b64_val c = (let k = (of_char c :: nat) in
     if 65 \<le> k \<and> k \<le> 90 then Some (k - 65)
     else if 97 \<le> k \<and> k \<le> 122 then Some (k - 71)
     else if 48 \<le> k \<and> k \<le> 57 then Some (k + 4)
     else if k = 43 then Some 62
     else if k = 47 then Some 63
     else None)"

fun btoa_bytes :: "string \<Rightarrow> string" where
  "btoa_bytes [] = []"
| "btoa_bytes [a] = (let x = (of_char a :: nat) in
     [b64_char (x div 4), b64_char ((x mod 4) * 16), CHR ''='', CHR ''=''])"
| "btoa_bytes [a, b] = (let x = (of_char a :: nat); y = (of_char b :: nat) in
     [b64_char (x div 4), b64_char ((x mod 4) * 16 + y div 16),
      b64_char ((y mod 16) * 4), CHR ''=''])"
| "btoa_bytes (a # b # c # r) =
     (let x = (of_char a :: nat); y = (of_char b :: nat); z = (of_char c :: nat) in
     [b64_char (x div 4), b64_char ((x mod 4) * 16 + y div 16),
      b64_char ((y mod 16) * 4 + z div 64), b64_char (z mod 64)] @ btoa_bytes r)"

fun b64_bytes :: "nat list \<Rightarrow> string" where
  "b64_bytes (a # b # c # d # r) =
     [char_of (a * 4 + b div 16), char_of ((b mod 16) * 16 + c div 4),
      char_of ((c mod 4) * 64 + d)] @ b64_bytes r"
| "b64_bytes [a, b, c] = [char_of (a * 4 + b div 16), char_of ((b mod 16) * 16 + c div 4)]"
| "b64_bytes [a, b] = [char_of (a * 4 + b div 16)]"
| "b64_bytes _ = []"

fun b64_vals :: "string \<Rightarrow> nat list option" where
  "b64_vals [] = Some []"
| "b64_vals (c # r) = (case b64_val c of None \<Rightarrow> None
     | Some v \<Rightarrow> (case b64_vals r of None \<Rightarrow> None | Some vs \<Rightarrow> Some (v # vs)))"

definition ascii_whitespace :: "char \<Rightarrow> bool" where
  "ascii_whitespace c = (c \<in> set [CHR 0x09, CHR 0x0A, CHR 0x0C, CHR 0x0D, CHR '' ''])"

definition strip_padding :: "string \<Rightarrow> string" where
  "strip_padding d =
     (if length d mod 4 = 0 \<and> d \<noteq> [] \<and> last d = CHR ''='' then
        (let d1 = butlast d in
         if d1 \<noteq> [] \<and> last d1 = CHR ''='' then butlast d1 else d1)
      else d)"

definition atob_bytes :: "string \<Rightarrow> string option" where
  "atob_bytes s = (let d = strip_padding (filter (\<lambda>c. \<not> ascii_whitespace c) s) in
     if length d mod 4 = 1 then None
     else (case b64_vals d of None \<Rightarrow> None | Some vs \<Rightarrow> Some (b64_bytes vs)))"

text \<open>The characters of a string, when all its code units are below 256.\<close>

fun latin_chars :: "jsstring \<Rightarrow> string option" where
  "latin_chars [] = Some []"
| "latin_chars (Latin c # r) =
     (case latin_chars r of None \<Rightarrow> None | Some cs \<Rightarrow> Some (c # cs))"
| "latin_chars (Wide n # r) = None"

text \<open>
  \<open>btoa\<close> throws on a code unit above 255. \<open>atob\<close> throws on a string that is not base64;
  a code unit above 255 is outside the alphabet.
\<close>

definition btoa :: "jsstring \<Rightarrow> jwt_error + jsstring" where
  "btoa s = (case latin_chars s of
       None \<Rightarrow> Inl InvalidCharacter
     | Some cs \<Rightarrow> Inr (js (btoa_bytes cs)))"

definition atob :: "jsstring \<Rightarrow> jwt_error + jsstring" where
  "atob s = (case latin_chars s of
       None \<Rightarrow> Inl Base64Error
     | Some cs \<Rightarrow> (case atob_bytes cs of None \<Rightarrow> Inl Base64Error | Some bs \<Rightarrow> Inr (js bs)))"

section \<open>\<open>TextEncoder\<close> and HMAC\<close>

text \<open>UTF-8, as \<open>TextEncoder\<close> encodes a string; a lone surrogate becomes U+FFFD.\<close>

definition utf8_2 :: "nat \<Rightarrow> string" where
  "utf8_2 k = [char_of (192 + k div 64), char_of (128 + k mod 64)]"

definition utf8_3 :: "nat \<Rightarrow> string" where
  "utf8_3 k = [char_of (224 + k div 4096), char_of (128 + k div 64 mod 64),
     char_of (128 + k mod 64)]"

definition utf8_4 :: "nat \<Rightarrow> string" where
  "utf8_4 k = [char_of (240 + k div 262144), char_of (128 + k div 4096 mod 64),
     char_of (128 + k div 64 mod 64), char_of (128 + k mod 64)]"

fun utf8 :: "jsstring \<Rightarrow> string" where
  "utf8 [] = []"
| "utf8 (Latin c # r) =
     (if (of_char c :: nat) < 128 then c # utf8 r else utf8_2 (of_char c) @ utf8 r)"
| "utf8 (Wide n # r) =
     (let k = 256 + n in
      if k < 2048 then utf8_2 k @ utf8 r
      else if 55296 \<le> k \<and> k < 56320 then
        (case r of
           Wide m # r' \<Rightarrow>
             if 56320 \<le> 256 + m \<and> 256 + m < 57344
             then utf8_4 (65536 + (k - 55296) * 1024 + (256 + m - 56320)) @ utf8 r'
             else utf8_3 65533 @ utf8 r
         | _ \<Rightarrow> utf8_3 65533 @ utf8 r)
      else if 56320 \<le> k \<and> k < 57344 then utf8_3 65533 @ utf8 r
      else utf8_3 k @ utf8 r)"

text \<open>
  HMAC, as \<open>crypto.subtle\<close> computes it (RFC 2104) from a hash function with blocks of 64
  bytes: a key longer than a block is hashed, and the key is filled with zero bytes up to
  the length of a block.
\<close>

definition xor_byte :: "int \<Rightarrow> char \<Rightarrow> char" where
  "xor_byte k c = char_of (nat ((of_char c :: int) XOR k))"

definition hmac_key_block :: "(string \<Rightarrow> string) \<Rightarrow> string \<Rightarrow> string" where
  "hmac_key_block H key =
     (let k = (if length key > 64 then H key else key)
      in k @ replicate (64 - length k) (CHR 0x00))"

definition hmac :: "(string \<Rightarrow> string) \<Rightarrow> string \<Rightarrow> string \<Rightarrow> string" where
  "hmac H key msg =
     H (map (xor_byte 0x5C) (hmac_key_block H key)
        @ H (map (xor_byte 0x36) (hmac_key_block H key) @ msg))"

text \<open>
  \<open>subtle.sign('HMAC', key, new TextEncoder().encode(message))\<close> for the key imported
  from \<open>new TextEncoder().encode(secret)\<close>.
\<close>

definition hmac_sha256 :: "platform \<Rightarrow> jsstring \<Rightarrow> jsstring \<Rightarrow> string" where
  "hmac_sha256 pf key msg = hmac (sha256 pf) (utf8 key) (utf8 msg)"

section \<open>The module's functions\<close>

text \<open>\<open>s.replace(/a/g, 'b')\<close> and \<open>s.replace(/a/g, '')\<close> for a character \<open>a\<close>.\<close>

definition replace_char :: "char \<Rightarrow> char \<Rightarrow> jsstring \<Rightarrow> jsstring" where
  "replace_char a b s = map (\<lambda>c. if c = Latin a then Latin b else c) s"

definition remove_char :: "char \<Rightarrow> jsstring \<Rightarrow> jsstring" where
  "remove_char a s = filter (\<lambda>c. c \<noteq> Latin a) s"

definition base64UrlEncode :: "jsstring \<Rightarrow> jwt_error + jsstring" where
  "base64UrlEncode data = (case btoa data of
       Inl err \<Rightarrow> Inl err
     | Inr b \<Rightarrow> Inr (remove_char CHR ''=''
         (replace_char CHR ''/'' CHR ''_'' (replace_char CHR ''+'' CHR ''-'' b))))"

definition base64UrlDecode :: "jsstring \<Rightarrow> jwt_error + jsstring" where
  "base64UrlDecode data =
     (let padded = replace_char CHR ''_'' CHR ''/'' (replace_char CHR ''-'' CHR ''+'' data);
          padding = 4 - (length padded mod 4);
          padded' = (if padding \<noteq> 4 then padded @ replicate padding (Latin CHR ''='')
                     else padded)
      in atob padded')"

text \<open>\<open>arrayBufferToBase64Url\<close>: each byte of the buffer becomes a character.\<close>

definition arrayBufferToBase64Url :: "string \<Rightarrow> jwt_error + jsstring" where
  "arrayBufferToBase64Url buffer = base64UrlEncode (js buffer)"

text \<open>
  \<open>parseExpirationTime\<close>: the match of \<open>/^(\d+)([smhd])$/\<close>. The greedy \<open>\d+\<close> takes
  the longest run of digits at the start, which must not be empty; what follows must be
  exactly one unit character. \<open>parseInt\<close> of the digits is their decimal value when that is
  at most \<open>2^53\<close>, and the platform's double otherwise.
\<close>

definition is_digit :: "jschar \<Rightarrow> bool" where
  "is_digit c = (case c of
       Latin ch \<Rightarrow> 48 \<le> (of_char ch :: nat) \<and> (of_char ch :: nat) \<le> 57
     | Wide n \<Rightarrow> False)"

definition digit_value :: "jschar \<Rightarrow> int" where
  "digit_value c = (case c of Latin ch \<Rightarrow> of_char ch - 48 | Wide n \<Rightarrow> 0)"

definition units :: "jschar \<Rightarrow> int option" where
  "units c = (if c = Latin CHR ''s'' then Some 1
     else if c = Latin CHR ''m'' then Some 60
     else if c = Latin CHR ''h'' then Some 3600
     else if c = Latin CHR ''d'' then Some 86400
     else None)"

definition digits_value :: "jsstring \<Rightarrow> int" where
  "digits_value ds = foldl (\<lambda>a c. a * 10 + digit_value c) 0 ds"

definition parseInt :: "platform \<Rightarrow> jsstring \<Rightarrow> int option" where
  "parseInt pf ds = (if digits_value ds \<le> 9007199254740992 then Some (digits_value ds)
     else parse_int_large pf ds)"

definition parseExpirationTime :: "platform \<Rightarrow> jsstring \<Rightarrow> jwt_error + int option" where
  "parseExpirationTime pf e =
     (let val = takeWhile is_digit e; rest = dropWhile is_digit e in
      if val = [] then Inl InvalidDuration
      else (case rest of
              [u] \<Rightarrow> (case units u of None \<Rightarrow> Inl InvalidDuration
                       | Some k \<Rightarrow> Inr (js_times pf (parseInt pf val) k))
            | _ \<Rightarrow> Inl InvalidDuration))"

definition getJWTSecret :: "ambient \<Rightarrow> jwt_error + jsstring" where
  "getJWTSecret amb = (case env_JWT_SECRET amb of
       None \<Rightarrow> Inl MissingSecret
     | Some s \<Rightarrow> if s = [] then Inl MissingSecret else Inr s)"

text \<open>\<open>secret || getJWTSecret()\<close>\<close>

definition jwtSecret :: "ambient \<Rightarrow> jsstring option \<Rightarrow> jwt_error + jsstring" where
  "jwtSecret amb secret = (case secret of
       None \<Rightarrow> getJWTSecret amb
     | Some s \<Rightarrow> if s = [] then getJWTSecret amb else Inr s)"

definition now_seconds :: "ambient \<Rightarrow> int" where
  "now_seconds amb = date_now amb div 1000"

definition jwt_header :: json where
  "jwt_header = JObj [(js ''alg'', JStr (js ''HS256'')), (js ''typ'', JStr (js ''JWT''))]"

text \<open>\<open>if (options.x) { processedPayload.k = options.x; }\<close>\<close>

definition set_if_given :: "jsstring \<Rightarrow> jsstring option \<Rightarrow> JWTPayload \<Rightarrow> JWTPayload" where
  "set_if_given k opt p = (case opt of None \<Rightarrow> p
     | Some x \<Rightarrow> if x = [] then p else obj_set k (JStr x) p)"

text \<open>Lines 104 to 123 of \<open>signJWT\<close>: the claims that are signed.\<close>

definition processedPayload ::
  "platform \<Rightarrow> ambient \<Rightarrow> JWTPayload \<Rightarrow> JWTOptions \<Rightarrow> jwt_error + JWTPayload" where
  "processedPayload pf amb payload options =
     (let now = now_seconds amb;
          p0 = obj_set (js ''jti'') (JStr (random_uuid amb))
                 (obj_set (js ''iat'') (JNum now) payload);
          p1 = set_if_given (js ''iss'') (issuer options) p0;
          p2 = set_if_given (js ''aud'') (audience options) p1;
          p3 = set_if_given (js ''sub'') (subject options) p2
      in case expiresIn options of
           None \<Rightarrow> Inr p3
         | Some e \<Rightarrow>
             if e = [] then Inr p3
             else (case parseExpirationTime pf e of
                     Inl err \<Rightarrow> Inl err
                   | Inr secs \<Rightarrow> Inr (obj_set (js ''exp'') (js_plus pf now secs) p3)))"

text \<open>Lines 126 to 128 of \<open>signJWT\<close>: the signing input of the claims.\<close>

definition signingInput :: "platform \<Rightarrow> JWTPayload \<Rightarrow> jwt_error + jsstring" where
  "signingInput pf claims =
     (case base64UrlEncode (json_stringify pf jwt_header) of
        Inl err \<Rightarrow> Inl err
      | Inr encodedHeader \<Rightarrow>
        (case base64UrlEncode (json_stringify pf (JObj claims)) of
           Inl err \<Rightarrow> Inl err
         | Inr encodedPayload \<Rightarrow> Inr (encodedHeader @ js ''.'' @ encodedPayload)))"

text \<open>Lines 125 to 148 of \<open>signJWT\<close>: the token of the claims under a key.\<close>

definition assemble_token :: "platform \<Rightarrow> jsstring \<Rightarrow> JWTPayload \<Rightarrow> jwt_error + jsstring" where
  "assemble_token pf key claims =
     (case signingInput pf claims of
        Inl err \<Rightarrow> Inl err
      | Inr input \<Rightarrow>
        (case arrayBufferToBase64Url (hmac_sha256 pf key input) of
           Inl err \<Rightarrow> Inl err
         | Inr encodedSignature \<Rightarrow> Inr (input @ js ''.'' @ encodedSignature)))"

text \<open>The body of the \<open>try\<close> block of \<open>signJWT\<close>.\<close>

definition signJWT_try ::
  "platform \<Rightarrow> ambient \<Rightarrow> JWTPayload \<Rightarrow> jsstring option \<Rightarrow> JWTOptions
     \<Rightarrow> jwt_error + jsstring" where
  "signJWT_try pf amb payload secret options =
     (case jwtSecret amb secret of
        Inl err \<Rightarrow> Inl err
      | Inr key \<Rightarrow>
        (case processedPayload pf amb payload options of
           Inl err \<Rightarrow> Inl err
         | Inr claims \<Rightarrow> assemble_token pf key claims))"

text \<open>The \<open>catch\<close> of every exported function: a new \<open>Error\<close> whose message is the
  function's prefix followed by the message of what was thrown.\<close>

definition rethrow :: "platform \<Rightarrow> jsstring \<Rightarrow> jwt_error + 'a \<Rightarrow> jsstring + 'a" where
  "rethrow pf prefix r = (case r of Inl err \<Rightarrow> Inl (prefix @ message pf err) | Inr x \<Rightarrow> Inr x)"


text \<open>\<open>token.split('.')\<close>\<close>

fun split_on :: "'a \<Rightarrow> 'a list \<Rightarrow> 'a list list" where
  "split_on d [] = [[]]"
| "split_on d (c # r) =
     (if c = d then [] # split_on d r
      else (case split_on d r of [] \<Rightarrow> [[c]] | x # xs \<Rightarrow> (c # x) # xs))"

text \<open>\<open>JSON.parse(base64UrlDecode(segment))\<close>\<close>

definition decode_segment :: "platform \<Rightarrow> jsstring \<Rightarrow> jwt_error + json" where
  "decode_segment pf seg = (case base64UrlDecode seg of
       Inl err \<Rightarrow> Inl err
     | Inr text \<Rightarrow> (case json_parse pf text of
                     Inl m \<Rightarrow> Inl (JsonSyntaxError m)
                   | Inr v \<Rightarrow> Inr v))"

text \<open>\<open>c.charCodeAt(0)\<close> stored in a \<open>Uint8Array\<close>: the code unit modulo 256.\<close>

definition code_byte :: "jschar \<Rightarrow> char" where
  "code_byte c = (case c of Latin ch \<Rightarrow> ch | Wide n \<Rightarrow> char_of (256 + n))"

text \<open>Lines 198 to 204 of \<open>verifyJWT\<close>: the bytes of the signature segment.\<close>

definition signature_bytes :: "jsstring \<Rightarrow> jwt_error + string" where
  "signature_bytes encodedSignature =
     (let signatureData =
            replace_char CHR ''_'' CHR ''/'' (replace_char CHR ''-'' CHR ''+'' encodedSignature);
          paddedSignature =
            signatureData @ replicate ((4 - length signatureData mod 4) mod 4) (Latin CHR ''='')
      in case atob paddedSignature of Inl err \<Rightarrow> Inl err | Inr s \<Rightarrow> Inr (map code_byte s))"

text \<open>\<open>options.algorithms.includes(header.alg)\<close>\<close>

definition includes_alg :: "jsstring list \<Rightarrow> json option \<Rightarrow> bool" where
  "includes_alg as alg = (case alg of Some (JStr a) \<Rightarrow> a \<in> set as | _ \<Rightarrow> False)"

text \<open>
  \<open>payload.exp && payload.exp < now\<close> and \<open>payload.nbf && payload.nbf > now\<close>: the
  comparison is made, and can throw, only for a truthy claim.
\<close>

definition expired :: "platform \<Rightarrow> json option \<Rightarrow> int \<Rightarrow> jwt_error + bool" where
  "expired pf exp now = (case exp of None \<Rightarrow> Inr False
     | Some x \<Rightarrow> if truthy x then js_less pf x now else Inr False)"

definition not_yet_valid :: "platform \<Rightarrow> json option \<Rightarrow> int \<Rightarrow> jwt_error + bool" where
  "not_yet_valid pf nbf now = (case nbf of None \<Rightarrow> Inr False
     | Some x \<Rightarrow> if truthy x then js_greater pf x now else Inr False)"

text \<open>Lines 228 to 236 of \<open>verifyJWT\<close>: issuer, audience, and the result.\<close>

definition check_issuer_audience ::
  "platform \<Rightarrow> json \<Rightarrow> JWTVerifyOptions \<Rightarrow> jwt_error + json" where
  "check_issuer_audience pf payload options =
     (case (case v_issuer options of
              None \<Rightarrow> Inr ()
            | Some i \<Rightarrow>
                if i = [] then Inr ()
                else (case get_prop payload (js ''iss'') of
                        Inl err \<Rightarrow> Inl err
                      | Inr iss \<Rightarrow>
                          if strict_neq iss i
                          then (case js_string_opt pf iss of
                                  Inl err \<Rightarrow> Inl err
                                | Inr s \<Rightarrow> Inl (IssuerMismatch i s))
                          else Inr ())) of
        Inl err \<Rightarrow> Inl err
      | Inr u \<Rightarrow>
          (case v_audience options of
             None \<Rightarrow> Inr payload
           | Some a \<Rightarrow>
               if a = [] then Inr payload
               else (case get_prop payload (js ''aud'') of
                       Inl err \<Rightarrow> Inl err
                     | Inr aud \<Rightarrow>
                         if strict_neq aud a
                         then (case js_string_opt pf aud of
                                 Inl err \<Rightarrow> Inl err
                               | Inr s \<Rightarrow> Inl (AudienceMismatch a s))
                         else Inr payload)))"

text \<open>Lines 224 to 236 of \<open>verifyJWT\<close>: what follows the expiry check.\<close>

definition check_after_expiry ::
  "platform \<Rightarrow> int \<Rightarrow> json \<Rightarrow> JWTVerifyOptions \<Rightarrow> jwt_error + json" where
  "check_after_expiry pf now payload options =
     (case get_prop payload (js ''nbf'') of
        Inl err \<Rightarrow> Inl err
      | Inr nbf \<Rightarrow>
          (case not_yet_valid pf nbf now of
             Inl err \<Rightarrow> Inl err
           | Inr early \<Rightarrow>
               if early then Inl TokenNotYetValid
               else check_issuer_audience pf payload options))"

text \<open>Lines 218 to 236 of \<open>verifyJWT\<close>: the checks of the claims, after the signature.\<close>

definition check_claims ::
  "platform \<Rightarrow> int \<Rightarrow> json \<Rightarrow> JWTVerifyOptions \<Rightarrow> jwt_error + json" where
  "check_claims pf now payload options =
     (case get_prop payload (js ''exp'') of
        Inl err \<Rightarrow> Inl err
      | Inr exp \<Rightarrow>
          (case expired pf exp now of
             Inl err \<Rightarrow> Inl err
           | Inr late \<Rightarrow>
               if late then Inl TokenExpired
               else check_after_expiry pf now payload options))"

text \<open>Lines 170 to 236 of \<open>verifyJWT\<close>: the three parts in hand.\<close>

definition verify_parts ::
  "platform \<Rightarrow> int \<Rightarrow> jsstring \<Rightarrow> jsstring \<Rightarrow> jsstring \<Rightarrow> jsstring \<Rightarrow> JWTVerifyOptions
     \<Rightarrow> jwt_error + json" where
  "verify_parts pf now key encodedHeader encodedPayload encodedSignature options =
     (case decode_segment pf encodedHeader of
        Inl err \<Rightarrow> Inl err
      | Inr header \<Rightarrow>
        (case decode_segment pf encodedPayload of
           Inl err \<Rightarrow> Inl err
         | Inr payload \<Rightarrow>
           (case get_prop header (js ''alg'') of
              Inl err \<Rightarrow> Inl err
            | Inr alg \<Rightarrow>
              if strict_neq alg (js ''HS256'')
              then (case js_string_opt pf alg of
                      Inl err \<Rightarrow> Inl err
                    | Inr s \<Rightarrow> Inl (UnsupportedAlgorithm s))
              else if (case algorithms options of None \<Rightarrow> False
                       | Some as \<Rightarrow> \<not> includes_alg as alg)
              then (case js_string_opt pf alg of
                      Inl err \<Rightarrow> Inl err
                    | Inr s \<Rightarrow> Inl (AlgorithmNotAllowed s))
              else (case signature_bytes encodedSignature of
                      Inl err \<Rightarrow> Inl err
                    | Inr signature \<Rightarrow>
                      if signature \<noteq>
                         hmac_sha256 pf key (encodedHeader @ js ''.'' @ encodedPayload)
                      then Inl InvalidSignature
                      else check_claims pf now payload options))))"

text \<open>The body of the \<open>try\<close> block of \<open>verifyJWT\<close>.\<close>

definition verifyJWT_try ::
  "platform \<Rightarrow> ambient \<Rightarrow> jsstring \<Rightarrow> jsstring option \<Rightarrow> JWTVerifyOptions
     \<Rightarrow> jwt_error + json" where
  "verifyJWT_try pf amb token secret options =
     (case jwtSecret amb secret of
        Inl err \<Rightarrow> Inl err
      | Inr key \<Rightarrow>
        (case split_on (Latin CHR ''.'') token of
           [encodedHeader, encodedPayload, encodedSignature] \<Rightarrow>
             verify_parts pf (now_seconds amb) key encodedHeader encodedPayload
               encodedSignature options
         | _ \<Rightarrow> Inl MalformedToken))"

definition verifyJWT ::
  "platform \<Rightarrow> ambient \<Rightarrow> jsstring \<Rightarrow> jsstring option \<Rightarrow> JWTVerifyOptions
     \<Rightarrow> jsstring + json" where
  "verifyJWT pf amb token secret options =
     rethrow pf (js ''Failed to verify JWT: '') (verifyJWT_try pf amb token secret options)"

text \<open>\<open>decodeJWTUnsafe\<close>: the split and the two decodings, nothing else.\<close>

definition decodeJWTUnsafe_try ::
  "platform \<Rightarrow> jsstring \<Rightarrow> jwt_error + json \<times> json \<times> jsstring" where
  "decodeJWTUnsafe_try pf token =
     (case split_on (Latin CHR ''.'') token of
        [headerB64, payloadB64, signature] \<Rightarrow>
          (case decode_segment pf headerB64 of
             Inl err \<Rightarrow> Inl err
           | Inr header \<Rightarrow>
             (case decode_segment pf payloadB64 of
                Inl err \<Rightarrow> Inl err
              | Inr payload \<Rightarrow> Inr (header, payload, signature)))
      | _ \<Rightarrow> Inl MalformedToken)"

definition decodeJWTUnsafe ::
  "platform \<Rightarrow> jsstring \<Rightarrow> jsstring + json \<times> json \<times> jsstring" where
  "decodeJWTUnsafe pf token =
     rethrow pf (js ''Failed to decode JWT: '') (decodeJWTUnsafe_try pf token)"

text \<open>\<open>isJWTExpired\<close>: what its \<open>try\<close> block throws is the error of \<open>decodeJWTUnsafe\<close>,
  already a message, or a \<open>TypeError\<close> of \<open>payload.exp\<close> or of the comparison.\<close>

definition isJWTExpired :: "platform \<Rightarrow> ambient \<Rightarrow> jsstring \<Rightarrow> jsstring + bool" where
  "isJWTExpired pf amb token =
     (case decodeJWTUnsafe pf token of
        Inl m \<Rightarrow> Inl (js ''Failed to check JWT expiration: '' @ m)
      | Inr (header, payload, signature) \<Rightarrow>
        (case get_prop payload (js ''exp'') of
           Inl err \<Rightarrow> Inl (js ''Failed to check JWT expiration: '' @ message pf err)
         | Inr exp \<Rightarrow>
           (case exp of
              None \<Rightarrow> Inr False
            | Some x \<Rightarrow>
                if \<not> truthy x then Inr False
                else (case js_less pf x (now_seconds amb) of
                        Inl err \<Rightarrow> Inl (js ''Failed to check JWT expiration: '' @ message pf err)
                      | Inr b \<Rightarrow> Inr b))))"

text \<open>\<open>isValidJWTFormat\<close> of the QR module: three parts, none of them empty.\<close>

definition isValidJWTFormat :: "jsstring \<Rightarrow> bool" where
  "isValidJWTFormat jwt =
     (let parts = split_on (Latin CHR ''.'') jwt
      in length parts = 3 \<and> list_all (\<lambda>p. length p > 0) parts)"

section \<open>A reference platform for the examples\<close>

text \<open>
  The theorems below hold for every platform. The examples need one to run on:
  \<open>JSON.stringify\<close> and \<open>JSON.parse\<close> on the values of \<^typ>\<open>json\<close> (integers for numbers,
  lone surrogates aside), a short checksum in the place of SHA-256, the rounding of an integer to the nearest
  double, and the comparison of a string of digits with a number.
\<close>

definition hex_digit :: "nat \<Rightarrow> char" where
  "hex_digit n = (if n < 10 then char_of (48 + n) else char_of (87 + n))"

definition escape_char :: "jschar \<Rightarrow> jsstring" where
  "escape_char c = (case c of
       Wide n \<Rightarrow> [c]
     | Latin ch \<Rightarrow>
        (if ch = CHR 0x22 then js [CHR 0x5C, CHR 0x22]
         else if ch = CHR 0x5C then js [CHR 0x5C, CHR 0x5C]
         else if ch = CHR 0x08 then js [CHR 0x5C, CHR ''b'']
         else if ch = CHR 0x0C then js [CHR 0x5C, CHR ''f'']
         else if ch = CHR 0x0A then js [CHR 0x5C, CHR ''n'']
         else if ch = CHR 0x0D then js [CHR 0x5C, CHR ''r'']
         else if ch = CHR 0x09 then js [CHR 0x5C, CHR ''t'']
         else if (of_char ch :: nat) < 32
           then js [CHR 0x5C, CHR ''u'', CHR ''0'', CHR ''0'',
                 hex_digit ((of_char ch :: nat) div 16), hex_digit ((of_char ch :: nat) mod 16)]
         else [c]))"

definition quote :: "jsstring \<Rightarrow> jsstring" where
  "quote s = Latin CHR 0x22 # concat (map escape_char s) @ [Latin CHR 0x22]"

fun ref_stringify :: "json \<Rightarrow> jsstring" where
  "ref_stringify JNull = js ''null''"
| "ref_stringify (JBool b) = (if b then js ''true'' else js ''false'')"
| "ref_stringify (JNum n) = show_int n"
| "ref_stringify JInfinity = js ''null''"
| "ref_stringify (JStr s) = quote s"
| "ref_stringify (JArr xs) = js ''['' @ join_comma (map ref_stringify xs) @ js '']''"
| "ref_stringify (JObj kvs) =
     js ''{'' @ join_comma (map (\<lambda>kv. quote (fst kv) @ js '':'' @ ref_stringify (snd kv)) kvs)
       @ js ''}''"

definition json_whitespace :: "jschar \<Rightarrow> bool" where
  "json_whitespace c = (c \<in> set (js [CHR '' '', CHR 0x09, CHR 0x0A, CHR 0x0D]))"

definition skip_ws :: "jsstring \<Rightarrow> jsstring" where
  "skip_ws s = dropWhile json_whitespace s"

definition hex_val :: "jschar \<Rightarrow> nat option" where
  "hex_val c = (case c of
       Wide n \<Rightarrow> None
     | Latin ch \<Rightarrow> (let k = (of_char ch :: nat) in
         if 48 \<le> k \<and> k \<le> 57 then Some (k - 48)
         else if 97 \<le> k \<and> k \<le> 102 then Some (k - 87)
         else if 65 \<le> k \<and> k \<le> 70 then Some (k - 55)
         else None))"

definition unescape :: "jschar \<Rightarrow> char option" where
  "unescape c =
     (if c = Latin CHR 0x22 then Some (CHR 0x22)
      else if c = Latin CHR 0x5C then Some (CHR 0x5C)
      else if c = Latin CHR ''/'' then Some (CHR ''/'')
      else if c = Latin CHR ''b'' then Some (CHR 0x08)
      else if c = Latin CHR ''f'' then Some (CHR 0x0C)
      else if c = Latin CHR ''n'' then Some (CHR 0x0A)
      else if c = Latin CHR ''r'' then Some (CHR 0x0D)
      else if c = Latin CHR ''t'' then Some (CHR 0x09)
      else None)"

definition code_unit :: "nat \<Rightarrow> jschar" where
  "code_unit k = (if k < 256 then Latin (char_of k) else Wide (k - 256))"

definition control_char :: "jschar \<Rightarrow> bool" where
  "control_char c = (case c of Latin ch \<Rightarrow> (of_char ch :: nat) < 32 | Wide n \<Rightarrow> False)"

text \<open>The characters of a string literal after its opening quote, and the rest.\<close>

fun parse_chars :: "nat \<Rightarrow> jsstring \<Rightarrow> (jsstring \<times> jsstring) option" where
  "parse_chars 0 s = None"
| "parse_chars (Suc n) [] = None"
| "parse_chars (Suc n) (c # r) =
     (if c = Latin CHR 0x22 then Some ([], r)
      else if c = Latin CHR 0x5C then
        (case r of
           [] \<Rightarrow> None
         | e # r' \<Rightarrow>
             if e = Latin CHR ''u'' then
               (case r' of
                  a # b # x # y # r'' \<Rightarrow>
                    (case (hex_val a, hex_val b, hex_val x, hex_val y) of
                       (Some h3, Some h2, Some h1, Some h0) \<Rightarrow>
                         (case parse_chars n r'' of None \<Rightarrow> None
                          | Some (t, q) \<Rightarrow>
                              Some (code_unit (((h3 * 16 + h2) * 16 + h1) * 16 + h0) # t, q))
                     | _ \<Rightarrow> None)
                | _ \<Rightarrow> None)
             else (case unescape e of
                     None \<Rightarrow> None
                   | Some d \<Rightarrow> (case parse_chars n r' of None \<Rightarrow> None
                                | Some (t, q) \<Rightarrow> Some (Latin d # t, q))))
      else if control_char c then None
      else (case parse_chars n r of None \<Rightarrow> None | Some (t, q) \<Rightarrow> Some (c # t, q)))"

text \<open>The double nearest to an integer, ties to even; \<open>None\<close> is \<open>Infinity\<close>.\<close>

function bit_length :: "int \<Rightarrow> nat" where
  "bit_length n = (if n \<le> 0 then 0 else Suc (bit_length (n div 2)))"
  by pat_completeness auto
termination
  by (relation "measure nat") auto

definition ref_round_double :: "int \<Rightarrow> int option" where
  "ref_round_double n =
     (let a = \<bar>n\<bar>; e = bit_length a - 53 in
      if e = 0 then Some n
      else (let q = a div 2 ^ e; r = a mod 2 ^ e; h = 2 ^ (e - 1);
                q' = (if r > h \<or> (r = h \<and> odd q) then q + 1 else q);
                v = q' * 2 ^ e
            in if v \<ge> 2 ^ 1024 then None else Some (if n < 0 then - v else v)))"

text \<open>An integer literal: no leading zero, no fraction, no exponent.\<close>

definition parse_number :: "jsstring \<Rightarrow> (json \<times> jsstring) option" where
  "parse_number s =
     (let neg = (s \<noteq> [] \<and> hd s = Latin CHR ''-'');
          s' = (if neg then tl s else s);
          ds = takeWhile is_digit s';
          r = dropWhile is_digit s'
      in if ds = [] \<or> (length ds > 1 \<and> hd ds = Latin CHR ''0'') then None
         else if r \<noteq> [] \<and> hd r \<in> set (js ''.eE'') then None
         else (case ref_round_double (if neg then - digits_value ds else digits_value ds) of
                 None \<Rightarrow> Some (JInfinity, r)
               | Some v \<Rightarrow> Some (JNum v, r)))"

fun parse_value :: "nat \<Rightarrow> jsstring \<Rightarrow> (json \<times> jsstring) option"
  and parse_items :: "nat \<Rightarrow> jsstring \<Rightarrow> (json list \<times> jsstring) option"
  and parse_members :: "nat \<Rightarrow> jsstring \<Rightarrow> ((jsstring \<times> json) list \<times> jsstring) option" where
  "parse_value 0 s = None"
| "parse_value (Suc n) s =
     (case skip_ws s of
        [] \<Rightarrow> None
      | c # r \<Rightarrow>
          if c = Latin CHR 0x22 then
            (case parse_chars (Suc (length r)) r of None \<Rightarrow> None
             | Some (t, q) \<Rightarrow> Some (JStr t, q))
          else if c = Latin CHR ''['' then
            (case skip_ws r of
               [] \<Rightarrow> None
             | d # q \<Rightarrow> if d = Latin CHR '']'' then Some (JArr [], q)
                 else (case parse_items n r of None \<Rightarrow> None
                       | Some (xs, q') \<Rightarrow> Some (JArr xs, q')))
          else if c = Latin CHR ''{'' then
            (case skip_ws r of
               [] \<Rightarrow> None
             | d # q \<Rightarrow> if d = Latin CHR ''}'' then Some (JObj [], q)
                 else (case parse_members n r of None \<Rightarrow> None
                       | Some (kvs, q') \<Rightarrow>
                           Some (JObj (foldl (\<lambda>obj kv. obj_set (fst kv) (snd kv) obj) [] kvs), q')))
          else if take 4 (c # r) = js ''null'' then Some (JNull, drop 3 r)
          else if take 4 (c # r) = js ''true'' then Some (JBool True, drop 3 r)
          else if take 5 (c # r) = js ''false'' then Some (JBool False, drop 4 r)
          else parse_number (c # r))"
| "parse_items 0 s = None"
| "parse_items (Suc n) s =
     (case parse_value n s of
        None \<Rightarrow> None
      | Some (v, r) \<Rightarrow>
          (case skip_ws r of
             [] \<Rightarrow> None
           | c # q \<Rightarrow>
               if c = Latin CHR '']'' then Some ([v], q)
               else if c = Latin CHR '','' then
                 (case parse_items n q of None \<Rightarrow> None | Some (vs, q') \<Rightarrow> Some (v # vs, q'))
               else None))"
| "parse_members 0 s = None"
| "parse_members (Suc n) s =
     (case skip_ws s of
        [] \<Rightarrow> None
      | c # r \<Rightarrow>
          if c \<noteq> Latin CHR 0x22 then None
          else (case parse_chars (Suc (length r)) r of
                  None \<Rightarrow> None
                | Some (k, r1) \<Rightarrow>
                    (case skip_ws r1 of
                       [] \<Rightarrow> None
                     | c1 # r2 \<Rightarrow>
                         if c1 \<noteq> Latin CHR '':'' then None
                         else (case parse_value n r2 of
                                 None \<Rightarrow> None
                               | Some (v, r3) \<Rightarrow>
                                   (case skip_ws r3 of
                                      [] \<Rightarrow> None
                                    | c2 # r4 \<Rightarrow>
                                        if c2 = Latin CHR ''}'' then Some ([(k, v)], r4)
                                        else if c2 = Latin CHR '','' then
                                          (case parse_members n r4 of None \<Rightarrow> None
                                           | Some (kvs, q) \<Rightarrow> Some ((k, v) # kvs, q))
                                        else None)))))"

definition ref_parse :: "jsstring \<Rightarrow> jsstring + json" where
  "ref_parse s = (case parse_value (Suc (length s)) s of
       None \<Rightarrow> Inl (js ''Unexpected token in JSON'')
     | Some (v, r) \<Rightarrow> if skip_ws r = [] then Inr v else Inl (js ''Unexpected token in JSON''))"

text \<open>A two-byte checksum, in the place of SHA-256.\<close>

definition example_hash :: "string \<Rightarrow> string" where
  "example_hash bs =
     (let v = foldl (\<lambda>a c. (a * 31 + (of_char c :: int)) mod 65536) 7 bs
      in [char_of (nat (v div 256)), char_of (nat (v mod 256))])"

definition ref_string_less :: "jsstring \<Rightarrow> int \<Rightarrow> bool" where
  "ref_string_less s n = (if s = [] then 0 < n
     else if list_all is_digit s then digits_value s < n else False)"

definition ref_string_greater :: "jsstring \<Rightarrow> int \<Rightarrow> bool" where
  "ref_string_greater s n = (if s = [] then 0 > n
     else if list_all is_digit s then digits_value s > n else False)"

definition ref_platform :: platform where
  "ref_platform = \<lparr>json_stringify = ref_stringify, json_parse = ref_parse,
     sha256 = example_hash, string_less = ref_string_less,
     string_greater = ref_string_greater, number_string = show_int,
     round_double = ref_round_double,
     parse_int_large = (\<lambda>ds. ref_round_double (digits_value ds)),
     atob_message = js ''The string to be decoded is not correctly encoded.'',
     btoa_message = js ''The string to be encoded contains characters outside of the Latin1 range.'',
     type_error_message = (\<lambda>k. js ''null is not an object (evaluating '' @ k @ js '')''),
     primitive_error_message = js ''Cannot convert object to primitive value''\<rparr>"

section \<open>Inputs of the examples\<close>

definition amb_default :: ambient where
  "amb_default = \<lparr>date_now = 5000123, random_uuid = js ''u-1'',
     env_JWT_SECRET = Some (js ''env-key'')\<rparr>"

definition example_payload :: JWTPayload where
  "example_payload =
     [(js ''certificateId'', JStr (js ''CERT-1'')), (js ''exp'', JNum 9000),
      (js ''nbf'', JNum 100)]"


definition example_claims :: JWTPayload where
  "example_claims =
     [(js ''certificateId'', JStr (js ''CERT-1'')), (js ''exp'', JNum 9000),
      (js ''nbf'', JNum 100), (js ''iat'', JNum 5000), (js ''jti'', JStr (js ''u-1'')),
      (js ''iss'', JStr (js ''cert-tools''))]"



text \<open>
  The error kinds of the specification, and the kind of each thrown error. An error of
  \<open>atob\<close>, of \<open>JSON.parse\<close> or of a property read on a decoded \<open>null\<close> is a malformed segment.
  The error of \<open>btoa\<close> and the error of a conversion to a primitive are of none of the
  kinds that the specification lists.
\<close>

datatype error_kind =
    MissingSecret_kind
  | MalformedToken_kind
  | MalformedSegment_kind
  | UnsupportedAlgorithm_kind
  | AlgorithmNotAllowed_kind
  | InvalidSignature_kind
  | TokenExpired_kind
  | TokenNotYetValid_kind
  | IssuerMismatch_kind
  | AudienceMismatch_kind
  | InvalidDuration_kind
  | Unlisted_kind

fun kind_of :: "jwt_error \<Rightarrow> error_kind" where
  "kind_of MissingSecret = MissingSecret_kind"
| "kind_of InvalidDuration = InvalidDuration_kind"
| "kind_of MalformedToken = MalformedToken_kind"
| "kind_of (UnsupportedAlgorithm a) = UnsupportedAlgorithm_kind"
| "kind_of (AlgorithmNotAllowed a) = AlgorithmNotAllowed_kind"
| "kind_of InvalidSignature = InvalidSignature_kind"
| "kind_of TokenExpired = TokenExpired_kind"
| "kind_of TokenNotYetValid = TokenNotYetValid_kind"
| "kind_of (IssuerMismatch i a) = IssuerMismatch_kind"
| "kind_of (AudienceMismatch i a) = AudienceMismatch_kind"
| "kind_of Base64Error = MalformedSegment_kind"
| "kind_of (JsonSyntaxError m) = MalformedSegment_kind"
| "kind_of (NullProperty k) = MalformedSegment_kind"
| "kind_of InvalidCharacter = Unlisted_kind"
| "kind_of NotPrimitive = Unlisted_kind"

section \<open>Base64: encoding and decoding are inverse\<close>

lemma b64_val_char: "n < 64 \<Longrightarrow> b64_val (b64_char n) = Some n"
  by (auto simp: b64_val_def b64_char_def Let_def)

lemma of_char_b64_char:
  "n < 64 \<Longrightarrow> (of_char (b64_char n) :: nat) \<in> {65..90} \<union> {97..122} \<union> {48..57} \<union> {43, 47}"
  by (auto simp: b64_char_def)

lemma b64_char_neq:
  assumes "n < 64"
  shows "b64_char n \<noteq> CHR ''=''" "b64_char n \<noteq> CHR ''-''" "b64_char n \<noteq> CHR ''_''"
    "\<not> ascii_whitespace (b64_char n)"
proof -
  have k: "(of_char (b64_char n) :: nat) \<in> {65..90} \<union> {97..122} \<union> {48..57} \<union> {43, 47}"
    using assms by (rule of_char_b64_char)
  show "b64_char n \<noteq> CHR ''=''" using k by auto
  show "b64_char n \<noteq> CHR ''-''" using k by auto
  show "b64_char n \<noteq> CHR ''_''" using k by auto
  show "\<not> ascii_whitespace (b64_char n)" using k by (auto simp: ascii_whitespace_def)
qed

lemma idx_bounds:
  fixes a b c :: char
  shows "(of_char a :: nat) div 4 < 64"
    "((of_char a :: nat) mod 4) * 16 + (of_char b :: nat) div 16 < 64"
    "((of_char b :: nat) mod 16) * 4 + (of_char c :: nat) div 64 < 64"
    "(of_char c :: nat) mod 64 < 64"
    "((of_char a :: nat) mod 4) * 16 < 64"
    "((of_char b :: nat) mod 16) * 4 < 64"
proof -
  have A: "(of_char a :: nat) < 256" and B: "(of_char b :: nat) < 256"
    and C: "(of_char c :: nat) < 256"
    by simp_all
  have a4: "(of_char a :: nat) mod 4 < 4" and b16: "(of_char b :: nat) mod 16 < 16" by simp_all
  have bd: "(of_char b :: nat) div 16 < 16" by (rule less_mult_imp_div_less) simp
  have cd: "(of_char c :: nat) div 64 < 4" by (rule less_mult_imp_div_less) simp
  show "(of_char a :: nat) div 4 < 64" by (rule less_mult_imp_div_less) simp
  show "((of_char a :: nat) mod 4) * 16 + (of_char b :: nat) div 16 < 64"
    using a4 bd by linarith
  show "((of_char b :: nat) mod 16) * 4 + (of_char c :: nat) div 64 < 64"
    using b16 cd by linarith
  show "(of_char c :: nat) mod 64 < 64" by simp
  show "((of_char a :: nat) mod 4) * 16 < 64" using a4 by linarith
  show "((of_char b :: nat) mod 16) * 4 < 64" using b16 by linarith
qed

lemma byte_div_zero:
  fixes b :: char
  shows "(of_char b :: nat) div 16 div 16 = 0" "(of_char b :: nat) div 64 div 4 = 0"
    "(of_char b :: nat) div 16 mod 16 = of_char b div 16"
    "(of_char b :: nat) div 64 mod 4 = of_char b div 64"
proof -
  have bd: "(of_char b :: nat) div 16 < 16" by (rule less_mult_imp_div_less) simp
  have cd: "(of_char b :: nat) div 64 < 4" by (rule less_mult_imp_div_less) simp
  show "(of_char b :: nat) div 16 div 16 = 0" using bd by simp
  show "(of_char b :: nat) div 64 div 4 = 0" using cd by simp
  show "(of_char b :: nat) div 16 mod 16 = of_char b div 16" using bd by simp
  show "(of_char b :: nat) div 64 mod 4 = of_char b div 64" using cd by simp
qed

lemma b64_bytes_groups:
  "b64_bytes [of_char a div 4, of_char a mod 4 * 16] = [a]"
  "b64_bytes [of_char a div 4, of_char a mod 4 * 16 + of_char b div 16, of_char b mod 16 * 4]
     = [a, b]"
  "b64_bytes (of_char a div 4 # (of_char a mod 4 * 16 + of_char b div 16) #
      (of_char b mod 16 * 4 + of_char c div 64) # (of_char c mod 64) # vs)
     = a # b # c # b64_bytes vs"
  by (simp_all add: byte_div_zero)

lemma btoa_roundtrip_vals:
  "\<exists>vs. b64_vals (filter (\<lambda>c. c \<noteq> CHR ''='') (btoa_bytes s)) = Some vs \<and> b64_bytes vs = s"
proof (induction s rule: btoa_bytes.induct)
  case 1
  show ?case by simp
next
  case (2 a)
  show ?case
    by (simp add: Let_def b64_char_neq idx_bounds b64_val_char b64_bytes_groups del: b64_bytes.simps)
next
  case (3 a b)
  show ?case
    by (simp add: Let_def b64_char_neq idx_bounds b64_val_char b64_bytes_groups del: b64_bytes.simps)
next
  case (4 a b c r)
  then obtain vs where vs: "b64_vals (filter (\<lambda>c. c \<noteq> CHR ''='') (btoa_bytes r)) = Some vs"
    "b64_bytes vs = r" by blast
  show ?case
    by (simp add: Let_def b64_char_neq idx_bounds b64_val_char b64_bytes_groups vs del: b64_bytes.simps)
qed

lemma length_btoa: "length (btoa_bytes s) = 4 * ((length s + 2) div 3)"
proof (induction s rule: btoa_bytes.induct)
  case (4 a b c r)
  have "(5 + length r) div 3 = Suc ((Suc (Suc (length r))) div 3)" by presburger
  with 4 show ?case by (simp add: Let_def)
qed (simp_all add: Let_def)

lemma btoa_chars:
  "c \<in> set (btoa_bytes s) \<Longrightarrow> c \<noteq> CHR ''-'' \<and> c \<noteq> CHR ''_'' \<and> \<not> ascii_whitespace c"
proof (induction s rule: btoa_bytes.induct)
  case 1
  then show ?case by simp
next
  case (2 a)
  have "\<not> ascii_whitespace CHR ''=''" by (simp add: ascii_whitespace_def)
  with 2 show ?case
    using b64_char_neq[OF idx_bounds(1)[of a]] b64_char_neq[OF idx_bounds(5)[of a]]
    by (auto simp: Let_def)
next
  case (3 a b)
  have "\<not> ascii_whitespace CHR ''=''" by (simp add: ascii_whitespace_def)
  with 3 show ?case
    using b64_char_neq[OF idx_bounds(1)[of a]] b64_char_neq[OF idx_bounds(2)[of a b]]
      b64_char_neq[OF idx_bounds(6)[of b]]
    by (auto simp: Let_def)
next
  case (4 a b c' r)
  then show ?case
    using b64_char_neq[OF idx_bounds(1)[of a]] b64_char_neq[OF idx_bounds(2)[of a b]]
      b64_char_neq[OF idx_bounds(3)[of b c']] b64_char_neq[OF idx_bounds(4)[of c']]
    by (auto simp: Let_def)
qed

lemma btoa_shape:
  "btoa_bytes s = filter (\<lambda>c. c \<noteq> CHR ''='') (btoa_bytes s) @ replicate ((3 - length s mod 3) mod 3) CHR ''=''"
proof (induction s rule: btoa_bytes.induct)
  case 1
  show ?case by simp
next
  case (2 a)
  have "replicate 2 CHR ''='' = ''==''" by (simp add: numeral_2_eq_2)
  then show ?case by (simp add: Let_def b64_char_neq idx_bounds)
next
  case (3 a b)
  show ?case by (simp add: Let_def b64_char_neq idx_bounds)
next
  case (4 a b c r)
  have "(3 - length (a # b # c # r) mod 3) mod 3 = (3 - length r mod 3) mod 3"
    by simp
  with 4 show ?case by (simp add: Let_def b64_char_neq idx_bounds)
qed

lemma strip_padding_body:
  assumes "CHR ''='' \<notin> set body" "p \<le> 2" "length (body @ replicate p CHR ''='') mod 4 = 0"
  shows "strip_padding (body @ replicate p CHR ''='') = body"
proof -
  have lastb: "body \<noteq> [] \<Longrightarrow> last body \<noteq> CHR ''=''"
    using assms(1) last_in_set by metis
  consider "p = 0" | "p = 1" | "p = 2" using assms(2) by linarith
  then show ?thesis
  proof cases
    case 1
    then show ?thesis using lastb by (auto simp: strip_padding_def)
  next
    case 2
    then show ?thesis using lastb assms(3) by (auto simp: strip_padding_def Let_def)
  next
    case 3
    then have "p = Suc (Suc 0)" by simp
    then have r: "replicate p CHR ''='' = [CHR ''='', CHR ''='']" by simp
    have "butlast (body @ [CHR ''='', CHR ''='']) = body @ [CHR ''='']"
      by (simp add: butlast_append)
    then show ?thesis using assms(3) unfolding r by (simp add: strip_padding_def Let_def)
  qed
qed

lemma atob_btoa: "atob_bytes (btoa_bytes s) = Some s"
proof -
  define body where "body = filter (\<lambda>c. c \<noteq> CHR ''='') (btoa_bytes s)"
  define p where "p = (3 - length s mod 3) mod 3"
  have shape: "btoa_bytes s = body @ replicate p CHR ''=''"
    unfolding body_def p_def by (rule btoa_shape)
  have "p < 3" unfolding p_def by simp
  then have p2: "p \<le> 2" by simp
  have noeq: "CHR ''='' \<notin> set body" unfolding body_def by simp
  have len4: "length (btoa_bytes s) mod 4 = 0" by (simp add: length_btoa)
  have "\<forall>c\<in>set (btoa_bytes s). \<not> ascii_whitespace c"
    using btoa_chars by blast
  then have nows: "filter (\<lambda>c. \<not> ascii_whitespace c) (btoa_bytes s) = btoa_bytes s"
    by (simp only: filter_id_conv)
  have strip: "strip_padding (btoa_bytes s) = body"
    unfolding shape using noeq p2 len4[unfolded shape] by (rule strip_padding_body)
  have "length body + p = length (btoa_bytes s)" unfolding shape by simp
  then have "(length body + p) mod 4 = 0" using len4 by simp
  then have not1: "length body mod 4 \<noteq> 1" using p2 by arith
  obtain vs where vs: "b64_vals body = Some vs" "b64_bytes vs = s"
    using btoa_roundtrip_vals[of s] unfolding body_def by blast
  show ?thesis
    using not1 by (simp add: atob_bytes_def nows strip vs)
qed

lemma b64_char_not_dot: "n < 64 \<Longrightarrow> b64_char n \<noteq> CHR ''.''"
  using of_char_b64_char[of n] by auto

lemma repad:
  fixes n p :: nat
  assumes "(n + p) mod 4 = 0" "p \<le> 2"
  shows "(4 - n mod 4) mod 4 = p"
    and "4 - n mod 4 \<noteq> 4 \<Longrightarrow> 4 - n mod 4 = p"
    and "4 - n mod 4 = 4 \<Longrightarrow> p = 0"
proof -
  define r where "r = n mod 4"
  have "r < 4" unfolding r_def by simp
  then have r: "r = 0 \<or> r = 1 \<or> r = 2 \<or> r = 3" by linarith
  have p: "p = 0 \<or> p = 1 \<or> p = 2" using assms(2) by linarith
  have "(n mod 4 + p) mod 4 = 0" using assms(1) by (simp add: mod_add_left_eq)
  then have h: "(r + p) mod 4 = 0" unfolding r_def .
  have "(4 - r) mod 4 = p \<and> (4 - r \<noteq> 4 \<longrightarrow> 4 - r = p) \<and> (4 - r = 4 \<longrightarrow> p = 0)"
    using r p h by (elim disjE) simp_all
  then show "(4 - n mod 4) mod 4 = p"
    and "4 - n mod 4 \<noteq> 4 \<Longrightarrow> 4 - n mod 4 = p"
    and "4 - n mod 4 = 4 \<Longrightarrow> p = 0"
    unfolding r_def by simp_all
qed

lemma url_bytes:
  "filter (\<lambda>c. c \<noteq> CHR ''='')
     (map (\<lambda>c. if c = CHR ''/'' then CHR ''_'' else c)
        (map (\<lambda>c. if c = CHR ''+'' then CHR ''-'' else c) xs))
   = map (\<lambda>c. if c = CHR ''/'' then CHR ''_'' else c)
       (map (\<lambda>c. if c = CHR ''+'' then CHR ''-'' else c)
          (filter (\<lambda>c. c \<noteq> CHR ''='') xs))"
  by (induction xs) auto

lemma unreplace_bytes:
  "map (\<lambda>c. if c = CHR ''_'' then CHR ''/'' else c)
     (map (\<lambda>c. if c = CHR ''-'' then CHR ''+'' else c)
        (filter (\<lambda>c. c \<noteq> CHR ''='')
           (map (\<lambda>c. if c = CHR ''/'' then CHR ''_'' else c)
              (map (\<lambda>c. if c = CHR ''+'' then CHR ''-'' else c) (btoa_bytes s)))))
   = filter (\<lambda>c. c \<noteq> CHR ''='') (btoa_bytes s)"
proof -
  let ?body = "filter (\<lambda>c. c \<noteq> CHR ''='') (btoa_bytes s)"
  have "\<And>c. c \<in> set ?body \<Longrightarrow>
      (\<lambda>c. if c = CHR ''_'' then CHR ''/'' else c)
        ((\<lambda>c. if c = CHR ''-'' then CHR ''+'' else c)
          ((\<lambda>c. if c = CHR ''/'' then CHR ''_'' else c)
            ((\<lambda>c. if c = CHR ''+'' then CHR ''-'' else c) c))) = c"
    using btoa_chars[of _ s] by auto
  then have "map (\<lambda>c. (\<lambda>c. if c = CHR ''_'' then CHR ''/'' else c)
        ((\<lambda>c. if c = CHR ''-'' then CHR ''+'' else c)
          ((\<lambda>c. if c = CHR ''/'' then CHR ''_'' else c)
            ((\<lambda>c. if c = CHR ''+'' then CHR ''-'' else c) c)))) ?body = ?body"
    by (rule map_idI)
  then show ?thesis unfolding url_bytes by (simp add: o_def)
qed

lemma body_length:
  "(length (filter (\<lambda>c. c \<noteq> CHR ''='') (btoa_bytes s)) + (3 - length s mod 3) mod 3) mod 4 = 0"
proof -
  have "length (filter (\<lambda>c. c \<noteq> CHR ''='') (btoa_bytes s)) + (3 - length s mod 3) mod 3
      = length (btoa_bytes s)"
    by (subst (2) btoa_shape) simp
  then show ?thesis by (simp add: length_btoa)
qed

section \<open>Strings of code units\<close>

lemma js_Nil [simp]: "js [] = []"
  by (simp add: js_def)

lemma js_eq_Nil [simp]: "js s = [] \<longleftrightarrow> s = []"
  by (simp add: js_def)

lemma js_inject [simp]: "js a = js b \<longleftrightarrow> a = b"
  unfolding js_def by (rule inj_map_eq_map) (simp add: inj_on_def)

lemma length_js [simp]: "length (js s) = length s"
  by (simp add: js_def)

lemma js_append: "js (a @ b) = js a @ js b"
  by (simp add: js_def)

lemma js_concat: "js a @ js b = js (a @ b)"
  by (simp add: js_def)

lemma Latin_in_js [simp]: "Latin c \<in> set (js s) \<longleftrightarrow> c \<in> set s"
  by (auto simp: js_def)

lemma latin_chars_js: "latin_chars (js s) = Some s"
  by (induction s) (simp_all add: js_def)

lemma latin_chars_Some: "latin_chars s = Some cs \<Longrightarrow> s = js cs"
  by (induction s arbitrary: cs rule: latin_chars.induct) (auto simp: js_def split: option.splits)

lemma replace_char_js:
  "replace_char a b (js s) = js (map (\<lambda>c. if c = a then b else c) s)"
  by (induction s) (simp_all add: replace_char_def js_def)

lemma remove_char_js: "remove_char a (js s) = js (filter (\<lambda>c. c \<noteq> a) s)"
  by (induction s) (simp_all add: remove_char_def js_def)

lemma btoa_js: "btoa (js s) = Inr (js (btoa_bytes s))"
  by (simp add: btoa_def latin_chars_js)

lemma atob_js:
  "atob (js s) = (case atob_bytes s of None \<Rightarrow> Inl Base64Error | Some bs \<Rightarrow> Inr (js bs))"
  by (simp add: atob_def latin_chars_js)

lemma js_replicate: "js s @ replicate n (Latin c) = js (s @ replicate n c)"
  by (simp add: js_def)

lemma base64UrlEncode_js:
  "base64UrlEncode (js s) = Inr (js (filter (\<lambda>c. c \<noteq> CHR ''='')
     (map (\<lambda>c. if c = CHR ''/'' then CHR ''_'' else c)
        (map (\<lambda>c. if c = CHR ''+'' then CHR ''-'' else c) (btoa_bytes s)))))"
  unfolding base64UrlEncode_def btoa_js sum.case replace_char_js remove_char_js ..

lemma base64UrlEncode_Inl:
  "base64UrlEncode d = Inl e \<longleftrightarrow> latin_chars d = None \<and> e = InvalidCharacter"
  by (auto simp: base64UrlEncode_def btoa_def split: option.splits)

lemma base64UrlEncode_Inr: "base64UrlEncode d = Inr e \<Longrightarrow> \<exists>cs. d = js cs"
  by (auto simp: base64UrlEncode_def btoa_def split: option.splits dest: latin_chars_Some)

lemma base64UrlDecode_js_encode:
  "base64UrlEncode (js s) = Inr e \<Longrightarrow> base64UrlDecode e = Inr (js s)"
proof -
  assume enc: "base64UrlEncode (js s) = Inr e"
  define body where "body = filter (\<lambda>c. c \<noteq> CHR ''='') (btoa_bytes s)"
  define p where "p = (3 - length s mod 3) mod 3"
  have shape: "btoa_bytes s = body @ replicate p CHR ''=''"
    unfolding body_def p_def by (rule btoa_shape)
  have "p < 3" unfolding p_def by simp
  then have p2: "p \<le> 2" by simp
  have len: "(length body + p) mod 4 = 0" unfolding body_def p_def by (rule body_length)
  have e: "e = js (filter (\<lambda>c. c \<noteq> CHR ''='')
     (map (\<lambda>c. if c = CHR ''/'' then CHR ''_'' else c)
        (map (\<lambda>c. if c = CHR ''+'' then CHR ''-'' else c) (btoa_bytes s))))"
    using enc unfolding base64UrlEncode_js by simp
  have un: "replace_char CHR ''_'' CHR ''/'' (replace_char CHR ''-'' CHR ''+'' e) = js body"
    unfolding e replace_char_js unreplace_bytes body_def ..
  have pad: "(if 4 - length body mod 4 \<noteq> 4
         then js body @ replicate (4 - length body mod 4) (Latin CHR ''='')
         else js body) = js (btoa_bytes s)"
    using repad(2,3)[OF len p2] shape by (auto simp: js_replicate)
  show ?thesis
    unfolding base64UrlDecode_def un Let_def length_js pad atob_js atob_btoa by simp
qed

lemma base64Url_roundtrip: "base64UrlEncode d = Inr e \<Longrightarrow> base64UrlDecode e = Inr d"
  using base64UrlEncode_Inr[of d e] base64UrlDecode_js_encode by blast

lemma arrayBufferToBase64Url_Inr: "\<exists>e. arrayBufferToBase64Url s = Inr e"
  by (simp add: arrayBufferToBase64Url_def base64UrlEncode_js)

lemma signature_roundtrip:
  "arrayBufferToBase64Url s = Inr e \<Longrightarrow> signature_bytes e = Inr s"
proof -
  assume enc: "arrayBufferToBase64Url s = Inr e"
  define body where "body = filter (\<lambda>c. c \<noteq> CHR ''='') (btoa_bytes s)"
  define p where "p = (3 - length s mod 3) mod 3"
  have shape: "btoa_bytes s = body @ replicate p CHR ''=''"
    unfolding body_def p_def by (rule btoa_shape)
  have "p < 3" unfolding p_def by simp
  then have p2: "p \<le> 2" by simp
  have len: "(length body + p) mod 4 = 0" unfolding body_def p_def by (rule body_length)
  have e: "e = js (filter (\<lambda>c. c \<noteq> CHR ''='')
     (map (\<lambda>c. if c = CHR ''/'' then CHR ''_'' else c)
        (map (\<lambda>c. if c = CHR ''+'' then CHR ''-'' else c) (btoa_bytes s))))"
    using enc unfolding arrayBufferToBase64Url_def base64UrlEncode_js by simp
  have un: "replace_char CHR ''_'' CHR ''/'' (replace_char CHR ''-'' CHR ''+'' e) = js body"
    unfolding e replace_char_js unreplace_bytes body_def ..
  have pad: "js body @ replicate ((4 - length body mod 4) mod 4) (Latin CHR ''='')
      = js (btoa_bytes s)"
    using repad(1)[OF len p2] shape by (simp add: js_replicate)
  show ?thesis
    unfolding signature_bytes_def un Let_def length_js pad atob_js atob_btoa
    by (simp add: js_def o_def code_byte_def)
qed

lemma btoa_no_dot: "CHR ''.'' \<notin> set (btoa_bytes s)"
proof (induction s rule: btoa_bytes.induct)
  case 1
  show ?case by simp
next
  case (2 a)
  show ?case
    using b64_char_not_dot[OF idx_bounds(1)[of a]] b64_char_not_dot[OF idx_bounds(5)[of a]]
    by (auto simp: Let_def)
next
  case (3 a b)
  show ?case
    using b64_char_not_dot[OF idx_bounds(1)[of a]] b64_char_not_dot[OF idx_bounds(2)[of a b]]
      b64_char_not_dot[OF idx_bounds(6)[of b]]
    by (auto simp: Let_def)
next
  case (4 a b c r)
  then show ?case
    using b64_char_not_dot[OF idx_bounds(1)[of a]] b64_char_not_dot[OF idx_bounds(2)[of a b]]
      b64_char_not_dot[OF idx_bounds(3)[of b c]] b64_char_not_dot[OF idx_bounds(4)[of c]]
    by (auto simp: Let_def)
qed

lemma base64UrlEncode_no_dot:
  "base64UrlEncode d = Inr e \<Longrightarrow> Latin CHR ''.'' \<notin> set e"
proof -
  assume enc: "base64UrlEncode d = Inr e"
  then obtain cs where d: "d = js cs" using base64UrlEncode_Inr by blast
  have "e = js (filter (\<lambda>c. c \<noteq> CHR ''='')
     (map (\<lambda>c. if c = CHR ''/'' then CHR ''_'' else c)
        (map (\<lambda>c. if c = CHR ''+'' then CHR ''-'' else c) (btoa_bytes cs))))"
    using enc unfolding d base64UrlEncode_js by simp
  then show ?thesis using btoa_no_dot[of cs] by (auto split: if_splits)
qed

lemma split_on_no_sep: "d \<notin> set s \<Longrightarrow> split_on d s = [s]"
  by (induction s) auto

lemma split_on_append: "d \<notin> set a \<Longrightarrow> split_on d (a @ d # r) = a # split_on d r"
  by (induction a) auto

lemma split_on_token:
  assumes "Latin CHR ''.'' \<notin> set a" "Latin CHR ''.'' \<notin> set b" "Latin CHR ''.'' \<notin> set c"
  shows "split_on (Latin CHR ''.'') ((a @ js ''.'' @ b) @ js ''.'' @ c) = [a, b, c]"
  using assms by (simp add: js_def split_on_append split_on_no_sep)

section \<open>The secret, and what each step can throw\<close>



lemma jwtSecret_error: "jwtSecret amb S = Inl e \<Longrightarrow> e = MissingSecret"
  by (auto simp: jwtSecret_def getJWTSecret_def split: option.splits if_splits)

lemma secret_nonempty: "s \<noteq> [] \<Longrightarrow> jwtSecret amb (Some s) = Inr s"
  by (simp add: jwtSecret_def)

lemma get_prop_error: "get_prop v k = Inl e \<Longrightarrow> e = NullProperty k"
  by (cases v) auto

lemma sequence_Inl: "sequence xs = Inl e \<Longrightarrow> Inl e \<in> set xs"
  by (induction xs) (auto split: sum.splits)

lemma js_string_error: "js_string pf v = Inl e \<Longrightarrow> e = NotPrimitive"
proof (induction pf v rule: js_string.induct)
  case (6 pf xs)
  from 6(2) have "sequence (map (\<lambda>x. if x = JNull then Inr [] else js_string pf x) xs) = Inl e"
    by (simp split: sum.splits)
  then have "Inl e \<in> set (map (\<lambda>x. if x = JNull then Inr [] else js_string pf x) xs)"
    by (rule sequence_Inl)
  then obtain x where "x \<in> set xs" "x \<noteq> JNull" "js_string pf x = Inl e"
    by (auto split: if_splits)
  then show ?case using 6(1) by blast
qed (simp_all split: if_splits)

lemma js_string_opt_error: "js_string_opt pf v = Inl e \<Longrightarrow> e = NotPrimitive"
  by (cases v) (auto simp: js_string_opt_def dest: js_string_error)

lemma js_less_error: "js_less pf a n = Inl e \<Longrightarrow> e = NotPrimitive"
  by (cases a) (auto simp: js_less_def simp del: js_string.simps split: sum.splits
      dest: js_string_error)

lemma js_greater_error: "js_greater pf a n = Inl e \<Longrightarrow> e = NotPrimitive"
  by (cases a) (auto simp: js_greater_def simp del: js_string.simps split: sum.splits
      dest: js_string_error)

lemma atob_error: "atob s = Inl e \<Longrightarrow> e = Base64Error"
  by (auto simp: atob_def split: option.splits)

lemma base64UrlDecode_error: "base64UrlDecode s = Inl e \<Longrightarrow> e = Base64Error"
  unfolding base64UrlDecode_def Let_def by (rule atob_error)

lemma decode_segment_error:
  "decode_segment pf s = Inl e \<Longrightarrow> e = Base64Error \<or> (\<exists>m. e = JsonSyntaxError m)"
  by (auto simp: decode_segment_def split: sum.splits dest: base64UrlDecode_error)

lemma signature_bytes_error: "signature_bytes s = Inl e \<Longrightarrow> e = Base64Error"
  by (auto simp: signature_bytes_def Let_def split: sum.splits dest: atob_error)

lemma parseExpirationTime_Inl: "parseExpirationTime pf e = Inl err \<Longrightarrow> err = InvalidDuration"
  by (auto simp: parseExpirationTime_def Let_def split: if_splits list.splits option.splits)

lemma processedPayload_error:
  "processedPayload pf amb P opts = Inl e \<Longrightarrow> e = InvalidDuration"
  by (auto simp: processedPayload_def Let_def split: option.splits if_splits sum.splits
      dest: parseExpirationTime_Inl)

lemma signingInput_error: "signingInput pf claims = Inl e \<Longrightarrow> e = InvalidCharacter"
  by (auto simp: signingInput_def base64UrlEncode_Inl split: sum.splits)

lemma assemble_token_error: "assemble_token pf key claims = Inl e \<Longrightarrow> e = InvalidCharacter"
proof -
  assume a: "assemble_token pf key claims = Inl e"
  show ?thesis
  proof (cases "signingInput pf claims")
    case (Inl err)
    then have "e = err" using a by (simp add: assemble_token_def)
    then show ?thesis using signingInput_error[OF Inl] by simp
  next
    case (Inr input)
    obtain es where "arrayBufferToBase64Url (hmac_sha256 pf key input) = Inr es"
      using arrayBufferToBase64Url_Inr by blast
    then show ?thesis using a Inr by (simp add: assemble_token_def)
  qed
qed

lemma signJWT_try_error:
  "signJWT_try pf amb P S opts = Inl e
   \<Longrightarrow> e = MissingSecret \<or> e = InvalidDuration \<or> e = InvalidCharacter"
  by (auto simp: signJWT_try_def split: sum.splits
      dest: jwtSecret_error processedPayload_error assemble_token_error)

lemma expired_error: "expired pf x now = Inl e \<Longrightarrow> e = NotPrimitive"
  by (auto simp: expired_def split: option.splits if_splits dest: js_less_error)

lemma not_yet_valid_error: "not_yet_valid pf x now = Inl e \<Longrightarrow> e = NotPrimitive"
  by (auto simp: not_yet_valid_def split: option.splits if_splits dest: js_greater_error)

lemma check_issuer_audience_error:
  "check_issuer_audience pf payload vo = Inl e
   \<Longrightarrow> (\<exists>k. e = NullProperty k) \<or> e = NotPrimitive
       \<or> (\<exists>i s. e = IssuerMismatch i s) \<or> (\<exists>a s. e = AudienceMismatch a s)"
  unfolding check_issuer_audience_def
  by (auto split: sum.splits option.splits if_splits
      dest!: get_prop_error js_string_opt_error)

lemma check_after_expiry_error:
  "check_after_expiry pf now payload vo = Inl e
   \<Longrightarrow> (\<exists>k. e = NullProperty k) \<or> e = NotPrimitive \<or> e = TokenNotYetValid
       \<or> (\<exists>i s. e = IssuerMismatch i s) \<or> (\<exists>a s. e = AudienceMismatch a s)"
  unfolding check_after_expiry_def
  by (auto split: sum.splits if_splits
      dest!: get_prop_error not_yet_valid_error check_issuer_audience_error)

lemma check_claims_error:
  "check_claims pf now payload vo = Inl e
   \<Longrightarrow> (\<exists>k. e = NullProperty k) \<or> e = NotPrimitive \<or> e = TokenExpired
       \<or> e = TokenNotYetValid
       \<or> (\<exists>i s. e = IssuerMismatch i s) \<or> (\<exists>a s. e = AudienceMismatch a s)"
  unfolding check_claims_def
  by (auto split: sum.splits if_splits
      dest!: get_prop_error expired_error check_after_expiry_error)

lemma verify_parts_error:
  "verify_parts pf now key eh ep es vo = Inl e
   \<Longrightarrow> e \<noteq> MissingSecret \<and> e \<noteq> InvalidDuration \<and> e \<noteq> MalformedToken
       \<and> e \<noteq> InvalidCharacter"
  unfolding verify_parts_def
  by (auto split: sum.splits if_splits
      dest!: decode_segment_error get_prop_error signature_bytes_error check_claims_error
        js_string_opt_error)







section \<open>Signing, then verifying\<close>

lemma base64UrlEncode_total: "latin_chars d \<noteq> None \<Longrightarrow> \<exists>e. base64UrlEncode d = Inr e"
  by (cases "base64UrlEncode d") (simp_all add: base64UrlEncode_Inl)

lemma base64UrlEncode_Inr_latin: "base64UrlEncode d = Inr e \<Longrightarrow> latin_chars d = None \<Longrightarrow> False"
  by (simp add: base64UrlEncode_def btoa_def)

lemma signingInput_Inr:
  assumes "signingInput pf claims = Inr m"
  obtains eh ep where "base64UrlEncode (json_stringify pf jwt_header) = Inr eh"
    and "base64UrlEncode (json_stringify pf (JObj claims)) = Inr ep"
    and "m = eh @ js ''.'' @ ep"
  using assms unfolding signingInput_def by (auto split: sum.splits)

lemma signingInput_total:
  assumes "latin_chars (json_stringify pf jwt_header) \<noteq> None"
    and "latin_chars (json_stringify pf (JObj claims)) \<noteq> None"
  shows "\<exists>m. signingInput pf claims = Inr m"
proof -
  obtain eh where eh: "base64UrlEncode (json_stringify pf jwt_header) = Inr eh"
    using base64UrlEncode_total[OF assms(1)] by blast
  obtain ep where ep: "base64UrlEncode (json_stringify pf (JObj claims)) = Inr ep"
    using base64UrlEncode_total[OF assms(2)] by blast
  show ?thesis by (simp add: signingInput_def eh ep)
qed

lemma signingInput_Inl:
  "signingInput pf claims = Inl e \<longleftrightarrow>
     e = InvalidCharacter \<and> (latin_chars (json_stringify pf jwt_header) = None
        \<or> latin_chars (json_stringify pf (JObj claims)) = None)"
  by (auto simp: signingInput_def base64UrlEncode_Inl split: sum.splits
      dest: base64UrlEncode_Inr_latin)

lemma assemble_token_Inr:
  assumes "assemble_token pf key claims = Inr t"
  obtains m es where "signingInput pf claims = Inr m"
    and "arrayBufferToBase64Url (hmac_sha256 pf key m) = Inr es"
    and "t = m @ js ''.'' @ es"
  using assms unfolding assemble_token_def by (auto split: sum.splits)

lemma assemble_token_total:
  "signingInput pf claims = Inr m \<Longrightarrow> \<exists>t. assemble_token pf key claims = Inr t"
  using arrayBufferToBase64Url_Inr[of "hmac_sha256 pf key m"]
  by (auto simp: assemble_token_def)

lemma assemble_token_Inl:
  "assemble_token pf key claims = Inl e \<longleftrightarrow> signingInput pf claims = Inl e"
proof (cases "signingInput pf claims")
  case (Inl err)
  then show ?thesis by (simp add: assemble_token_def)
next
  case (Inr m)
  then show ?thesis using assemble_token_total[OF Inr, of key] by auto
qed



lemma split_assembled:
  assumes tok: "assemble_token pf key claims = Inr t"
  obtains eh ep es where "base64UrlEncode (json_stringify pf jwt_header) = Inr eh"
    and "base64UrlEncode (json_stringify pf (JObj claims)) = Inr ep"
    and "signingInput pf claims = Inr (eh @ js ''.'' @ ep)"
    and "arrayBufferToBase64Url (hmac_sha256 pf key (eh @ js ''.'' @ ep)) = Inr es"
    and "t = (eh @ js ''.'' @ ep) @ js ''.'' @ es"
    and "split_on (Latin CHR ''.'') t = [eh, ep, es]"
proof -
  from tok obtain m es where m: "signingInput pf claims = Inr m"
    and es: "arrayBufferToBase64Url (hmac_sha256 pf key m) = Inr es"
    and t: "t = m @ js ''.'' @ es" by (rule assemble_token_Inr)
  from m obtain eh ep where eh: "base64UrlEncode (json_stringify pf jwt_header) = Inr eh"
    and ep: "base64UrlEncode (json_stringify pf (JObj claims)) = Inr ep"
    and mm: "m = eh @ js ''.'' @ ep" by (rule signingInput_Inr)
  have d1: "Latin CHR ''.'' \<notin> set eh" using eh by (rule base64UrlEncode_no_dot)
  have d2: "Latin CHR ''.'' \<notin> set ep" using ep by (rule base64UrlEncode_no_dot)
  have d3: "Latin CHR ''.'' \<notin> set es"
    using es unfolding arrayBufferToBase64Url_def by (rule base64UrlEncode_no_dot)
  have sp: "split_on (Latin CHR ''.'') t = [eh, ep, es]"
    unfolding t mm by (rule split_on_token[OF d1 d2 d3])
  show ?thesis
    by (rule that[OF eh ep m[unfolded mm] es[unfolded mm] t[unfolded mm] sp])
qed

lemma decode_segment_encoded:
  "base64UrlEncode (json_stringify pf v) = Inr e \<Longrightarrow> json_parse pf (json_stringify pf v) = Inr v
   \<Longrightarrow> decode_segment pf e = Inr v"
  by (simp add: decode_segment_def base64Url_roundtrip)

lemma includes_alg_HS256:
  "includes_alg as (Some (JStr (js ''HS256''))) = (js ''HS256'' \<in> set as)"
  by (simp add: includes_alg_def)

text \<open>The verification of a token that \<open>signJWT\<close> assembled, under any key.\<close>

lemma verifyJWT_try_signed:
  assumes tok: "assemble_token pf key claims = Inr t"
    and m: "signingInput pf claims = Inr m"
    and secret: "jwtSecret amb S' = Inr key'"
    and hdr: "json_parse pf (json_stringify pf jwt_header) = Inr jwt_header"
    and pl: "json_parse pf (json_stringify pf (JObj claims)) = Inr (JObj claims)"
  shows "verifyJWT_try pf amb t S' vo
    = (if (case algorithms vo of None \<Rightarrow> False | Some as \<Rightarrow> js ''HS256'' \<notin> set as)
       then Inl (AlgorithmNotAllowed (js ''HS256''))
       else if hmac_sha256 pf key m \<noteq> hmac_sha256 pf key' m
       then Inl InvalidSignature
       else check_claims pf (now_seconds amb) (JObj claims) vo)"
proof -
  from tok obtain eh ep es where eh: "base64UrlEncode (json_stringify pf jwt_header) = Inr eh"
    and ep: "base64UrlEncode (json_stringify pf (JObj claims)) = Inr ep"
    and mm: "signingInput pf claims = Inr (eh @ js ''.'' @ ep)"
    and es: "arrayBufferToBase64Url (hmac_sha256 pf key (eh @ js ''.'' @ ep)) = Inr es"
    and sp: "split_on (Latin CHR ''.'') t = [eh, ep, es]" by (rule split_assembled)
  have meq: "m = eh @ js ''.'' @ ep" using m mm by simp
  have dh: "decode_segment pf eh = Inr jwt_header" using eh hdr by (rule decode_segment_encoded)
  have dp: "decode_segment pf ep = Inr (JObj claims)" using ep pl by (rule decode_segment_encoded)
  have sb: "signature_bytes es = Inr (hmac_sha256 pf key (eh @ js ''.'' @ ep))"
    using es by (rule signature_roundtrip)
  have alg: "get_prop jwt_header (js ''alg'') = Inr (Some (JStr (js ''HS256'')))"
    by (simp add: jwt_header_def)
  have "verify_parts pf (now_seconds amb) key' eh ep es vo
    = (if (case algorithms vo of None \<Rightarrow> False | Some as \<Rightarrow> js ''HS256'' \<notin> set as)
       then Inl (AlgorithmNotAllowed (js ''HS256''))
       else if hmac_sha256 pf key (eh @ js ''.'' @ ep) \<noteq> hmac_sha256 pf key' (eh @ js ''.'' @ ep)
       then Inl InvalidSignature
       else check_claims pf (now_seconds amb) (JObj claims) vo)"
    unfolding verify_parts_def dh dp alg sum.case sb
    by (simp add: includes_alg_HS256 js_string_opt_def strict_neq_def split: option.split)
  then show ?thesis
    unfolding meq by (simp only: verifyJWT_try_def secret sum.case sp list.case)
qed

lemma check_claims_no_options:
  "check_claims pf now (JObj claims) no_verify_options =
     (case expired pf (map_of claims (js ''exp'')) now of
        Inl err \<Rightarrow> Inl err
      | Inr late \<Rightarrow>
          if late then Inl TokenExpired
          else (case not_yet_valid pf (map_of claims (js ''nbf'')) now of
                  Inl err \<Rightarrow> Inl err
                | Inr early \<Rightarrow> if early then Inl TokenNotYetValid else Inr (JObj claims)))"
  by (simp add: check_claims_def check_after_expiry_def check_issuer_audience_def
      no_verify_options_def split: sum.split cong: if_cong)

section \<open>The signed claims\<close>

lemma map_of_obj_set: "map_of (obj_set k v ob) k' = (if k' = k then Some v else map_of ob k')"
  by (induction ob) auto

lemma map_of_set_if_given:
  "map_of (set_if_given k opt p) k' =
     (case opt of None \<Rightarrow> map_of p k'
      | Some x \<Rightarrow> if x \<noteq> [] \<and> k' = k then Some (JStr x) else map_of p k')"
  by (simp add: set_if_given_def map_of_obj_set split: option.split)

text \<open>The claims before \<open>exp\<close> is set, and after.\<close>

lemma processedPayload_cases:
  assumes "processedPayload pf amb P opts = Inr claims"
  obtains "expiresIn opts \<in> {None, Some []}"
      "claims = set_if_given (js ''sub'') (subject opts) (set_if_given (js ''aud'') (audience opts)
         (set_if_given (js ''iss'') (issuer opts)
           (obj_set (js ''jti'') (JStr (random_uuid amb))
             (obj_set (js ''iat'') (JNum (now_seconds amb)) P))))"
  | e secs where "expiresIn opts = Some e" "e \<noteq> []" "parseExpirationTime pf e = Inr secs"
      "claims = obj_set (js ''exp'') (js_plus pf (now_seconds amb) secs)
         (set_if_given (js ''sub'') (subject opts) (set_if_given (js ''aud'') (audience opts)
         (set_if_given (js ''iss'') (issuer opts)
           (obj_set (js ''jti'') (JStr (random_uuid amb))
             (obj_set (js ''iat'') (JNum (now_seconds amb)) P)))))"
proof (cases "expiresIn opts")
  case None
  with assms that(1) show ?thesis by (simp add: processedPayload_def Let_def)
next
  case (Some e)
  show ?thesis
  proof (cases "e = []")
    case True
    with Some assms that(1) show ?thesis by (simp add: processedPayload_def Let_def)
  next
    case False
    with Some assms obtain secs where "parseExpirationTime pf e = Inr secs"
      by (cases "parseExpirationTime pf e") (simp_all add: processedPayload_def Let_def)
    with Some False assms that(2) show ?thesis by (simp add: processedPayload_def Let_def)
  qed
qed


lemma processedPayload_options:
  assumes "processedPayload pf amb P opts = Inr claims"
  shows "issuer opts = Some i \<Longrightarrow> i \<noteq> [] \<Longrightarrow> map_of claims (js ''iss'') = Some (JStr i)"
    and "audience opts = Some a \<Longrightarrow> a \<noteq> [] \<Longrightarrow> map_of claims (js ''aud'') = Some (JStr a)"
    and "subject opts = Some s \<Longrightarrow> s \<noteq> [] \<Longrightarrow> map_of claims (js ''sub'') = Some (JStr s)"
  using assms
  by (elim processedPayload_cases;
      simp add: map_of_obj_set map_of_set_if_given split: option.split)+

lemma processedPayload_exp:
  assumes "processedPayload pf amb P opts = Inr claims" "expiresIn opts = Some e" "e \<noteq> []"
  shows "\<exists>secs. parseExpirationTime pf e = Inr secs
        \<and> map_of claims (js ''exp'') = Some (js_plus pf (now_seconds amb) secs)"
  using assms
  by (elim processedPayload_cases) (auto simp: map_of_obj_set)


section \<open>Durations\<close>

lemma units_not_digit: "units u = Some k \<Longrightarrow> \<not> is_digit u"
  by (auto simp: units_def is_digit_def split: if_splits)

lemma parseExpirationTime_Inr_iff:
  "parseExpirationTime pf e = Inr n \<longleftrightarrow>
     (\<exists>ds u k. e = ds @ [u] \<and> ds \<noteq> [] \<and> list_all is_digit ds \<and> units u = Some k
        \<and> n = js_times pf (parseInt pf ds) k)"
proof
  assume a: "parseExpirationTime pf e = Inr n"
  define ds where "ds = takeWhile is_digit e"
  define rest where "rest = dropWhile is_digit e"
  have e: "e = ds @ rest" unfolding ds_def rest_def by simp
  have dig: "list_all is_digit ds" unfolding ds_def list_all_iff
    using set_takeWhileD by fastforce
  from a have ne: "ds \<noteq> []"
    unfolding parseExpirationTime_def Let_def ds_def by (auto split: if_splits)
  from a ne obtain u where u: "rest = [u]"
    unfolding parseExpirationTime_def Let_def ds_def rest_def
    by (auto split: if_splits list.splits)
  from a ne u obtain k where k: "units u = Some k" "n = js_times pf (parseInt pf ds) k"
    unfolding parseExpirationTime_def Let_def ds_def rest_def
    by (auto split: if_splits option.splits)
  show "\<exists>ds u k. e = ds @ [u] \<and> ds \<noteq> [] \<and> list_all is_digit ds \<and> units u = Some k
        \<and> n = js_times pf (parseInt pf ds) k"
    using e u ne dig k by blast
next
  assume "\<exists>ds u k. e = ds @ [u] \<and> ds \<noteq> [] \<and> list_all is_digit ds \<and> units u = Some k
        \<and> n = js_times pf (parseInt pf ds) k"
  then obtain ds u k where h: "e = ds @ [u]" "ds \<noteq> []" "list_all is_digit ds"
    "units u = Some k" "n = js_times pf (parseInt pf ds) k" by blast
  have nd: "\<not> is_digit u" using h(4) by (rule units_not_digit)
  have all: "\<And>x. x \<in> set ds \<Longrightarrow> is_digit x" using h(3) by (simp add: list_all_iff)
  have t: "takeWhile is_digit e = ds"
    unfolding h(1) using all nd by (simp add: takeWhile_append2)
  have d: "dropWhile is_digit e = [u]"
    unfolding h(1) using all nd by (simp add: dropWhile_append2)
  show "parseExpirationTime pf e = Inr n"
    using h(2) by (simp add: parseExpirationTime_def Let_def t d h(4,5))
qed

section \<open>The examples on the reference platform\<close>

lemma now_default: "now_seconds amb_default = 5000"
  by (simp add: now_seconds_def amb_default_def)

lemma secret_k: "jwtSecret amb (Some (js ''k'')) = Inr (js ''k'')"
  by (simp add: jwtSecret_def)

lemma ref_json_header:
  "json_parse ref_platform (json_stringify ref_platform jwt_header) = Inr jwt_header"
  by code_simp

section \<open>What signing does to the payload\<close>






section \<open>The shape of a token\<close>

lemma verify_parts_not_malformed_token:
  "verify_parts pf now key eh ep es vo \<noteq> Inl MalformedToken"
  using verify_parts_error by blast

lemma verifyJWT_try_malformed_iff:
  assumes "jwtSecret amb S = Inr key"
  shows "verifyJWT_try pf amb t S vo = Inl MalformedToken \<longleftrightarrow> length (split_on (Latin CHR ''.'') t) \<noteq> 3"
proof (cases "split_on (Latin CHR ''.'') t")
  case Nil
  then show ?thesis by (simp add: verifyJWT_try_def assms)
next
  case a: (Cons a r1)
  show ?thesis
  proof (cases r1)
    case Nil
    with a show ?thesis by (simp add: verifyJWT_try_def assms)
  next
    case b: (Cons b r2)
    show ?thesis
    proof (cases r2)
      case Nil
      with a b show ?thesis by (simp add: verifyJWT_try_def assms)
    next
      case c: (Cons c r3)
      show ?thesis
      proof (cases r3)
        case Nil
        with a b c show ?thesis
          by (simp add: verifyJWT_try_def assms verify_parts_not_malformed_token)
      next
        case (Cons d r4)
        with a b c show ?thesis by (simp add: verifyJWT_try_def assms)
      qed
    qed
  qed
qed

lemma decode_segment_empty:
  "json_parse pf [] = Inl m \<Longrightarrow> decode_segment pf [] = Inl (JsonSyntaxError m)"
  by (simp add: decode_segment_def base64UrlDecode_def replace_char_def Let_def atob_def
      atob_bytes_def strip_padding_def)

lemma decode_segment_kind:
  "decode_segment pf s = Inl e \<Longrightarrow> kind_of e = MalformedSegment_kind"
  by (auto dest: decode_segment_error)

lemma verify_parts_empty_segment:
  assumes "json_parse pf [] = Inl m" "eh = [] \<or> ep = []"
  shows "\<exists>e. verify_parts pf now key eh ep es vo = Inl e \<and> kind_of e = MalformedSegment_kind"
proof (cases "decode_segment pf eh")
  case (Inl e)
  then show ?thesis by (simp add: verify_parts_def decode_segment_kind)
next
  case (Inr header)
  with assms have "ep = []" by (auto simp: decode_segment_empty)
  then have "decode_segment pf ep = Inl (JsonSyntaxError m)"
    using assms(1) by (simp add: decode_segment_empty)
  with Inr show ?thesis by (simp add: verify_parts_def)
qed

text \<open>
  C3. With a secret available, \<open>verifyJWT\<close> fails with the error of the malformed token
  exactly when the input does not split on \<open>.\<close> into exactly three segments; the inputs
  \<open>""\<close>, \<open>"a.b"\<close> and \<open>"a.b.c.d"\<close> fail so. Only the number of segments is checked there: a
  three-segment input with an empty header or payload segment is rejected by the decoding
  step, as a malformed segment (\<open>JSON.parse\<close> rejects the empty text), not as a malformed
  token.
\<close>

theorem malformed_token_is_segment_count:
  assumes secret: "jwtSecret amb S = Inr key"
  shows "(verifyJWT_try pf amb t S vo = Inl MalformedToken
        \<longleftrightarrow> length (split_on (Latin CHR ''.'') t) \<noteq> 3)
    \<and> (length (split_on (Latin CHR ''.'') t) \<noteq> 3
        \<longrightarrow> verifyJWT pf amb t S vo = Inl (js ''Failed to verify JWT: Invalid JWT format''))
    \<and> verifyJWT_try pf amb [] S vo = Inl MalformedToken
    \<and> verifyJWT_try pf amb (js ''a.b'') S vo = Inl MalformedToken
    \<and> verifyJWT_try pf amb (js ''a.b.c.d'') S vo = Inl MalformedToken
    \<and> (\<forall>h p s m. split_on (Latin CHR ''.'') t = [h, p, s] \<and> (h = [] \<or> p = [])
          \<and> json_parse pf [] = Inl m
        \<longrightarrow> (\<exists>e. verifyJWT_try pf amb t S vo = Inl e \<and> kind_of e = MalformedSegment_kind))"
proof -
  note iff = verifyJWT_try_malformed_iff[OF secret, of pf]
  have a: "verifyJWT_try pf amb t S vo = Inl MalformedToken
        \<longleftrightarrow> length (split_on (Latin CHR ''.'') t) \<noteq> 3"
    by (rule iff)
  have b: "length (split_on (Latin CHR ''.'') t) \<noteq> 3
        \<longrightarrow> verifyJWT pf amb t S vo = Inl (js ''Failed to verify JWT: Invalid JWT format'')"
  proof
    assume "length (split_on (Latin CHR ''.'') t) \<noteq> 3"
    then have "verifyJWT_try pf amb t S vo = Inl MalformedToken" by (simp add: a)
    then show "verifyJWT pf amb t S vo = Inl (js ''Failed to verify JWT: Invalid JWT format'')"
      by (simp add: verifyJWT_def rethrow_def js_concat)
  qed
  have c: "verifyJWT_try pf amb [] S vo = Inl MalformedToken"
    unfolding iff by simp
  have d: "verifyJWT_try pf amb (js ''a.b'') S vo = Inl MalformedToken"
    unfolding iff by (simp add: js_def)
  have e: "verifyJWT_try pf amb (js ''a.b.c.d'') S vo = Inl MalformedToken"
    unfolding iff by (simp add: js_def)
  have f: "\<forall>h p s m. split_on (Latin CHR ''.'') t = [h, p, s] \<and> (h = [] \<or> p = [])
          \<and> json_parse pf [] = Inl m
        \<longrightarrow> (\<exists>e. verifyJWT_try pf amb t S vo = Inl e \<and> kind_of e = MalformedSegment_kind)"
  proof (intro allI impI)
    fix h p s m
    assume h: "split_on (Latin CHR ''.'') t = [h, p, s] \<and> (h = [] \<or> p = []) \<and> json_parse pf [] = Inl m"
    then have "\<exists>e. verify_parts pf (now_seconds amb) key h p s vo = Inl e
        \<and> kind_of e = MalformedSegment_kind"
      by (intro verify_parts_empty_segment) auto
    with h show "\<exists>e. verifyJWT_try pf amb t S vo = Inl e \<and> kind_of e = MalformedSegment_kind"
      by (simp add: verifyJWT_try_def secret)
  qed
  show ?thesis by (rule conjI[OF a conjI[OF b conjI[OF c conjI[OF d conjI[OF e f]]]]])
qed

lemma ref_parse_empty: "json_parse ref_platform [] = Inl (js ''Unexpected token in JSON'')"
  by code_simp

theorem malformed_token_is_segment_count_witness:
  "jwtSecret amb_default (Some (js ''k'')) = Inr (js ''k'')
   \<and> length (split_on (Latin CHR ''.'') (js ''a.b.c.d'')) \<noteq> 3
   \<and> verifyJWT ref_platform amb_default (js ''a.b.c.d'') (Some (js ''k'')) no_verify_options
        = Inl (js ''Failed to verify JWT: Invalid JWT format'')
   \<and> split_on (Latin CHR ''.'') (js ''..'') = [[], [], []]
   \<and> json_parse ref_platform [] = Inl (js ''Unexpected token in JSON'')
   \<and> (\<exists>e. verifyJWT_try ref_platform amb_default (js ''..'') (Some (js ''k'')) no_verify_options = Inl e
          \<and> kind_of e = MalformedSegment_kind)"
proof -
  have l: "length (split_on (Latin CHR ''.'') (js ''a.b.c.d'')) \<noteq> 3" by (simp add: js_def)
  have sp: "split_on (Latin CHR ''.'') (js ''..'') = [[], [], []]" by (simp add: js_def)
  note r1 = malformed_token_is_segment_count[OF secret_k[of amb_default],
      where pf=ref_platform and t="js ''a.b.c.d''" and vo=no_verify_options]
  then have "length (split_on (Latin CHR ''.'') (js ''a.b.c.d'')) \<noteq> 3
        \<longrightarrow> verifyJWT ref_platform amb_default (js ''a.b.c.d'') (Some (js ''k'')) no_verify_options
            = Inl (js ''Failed to verify JWT: Invalid JWT format'')"
    by (elim conjE)
  then have v: "verifyJWT ref_platform amb_default (js ''a.b.c.d'') (Some (js ''k'')) no_verify_options
            = Inl (js ''Failed to verify JWT: Invalid JWT format'')"
    using l by (rule mp)
  note r2 = malformed_token_is_segment_count[OF secret_k[of amb_default],
      where pf=ref_platform and t="js ''..''" and vo=no_verify_options]
  then have "\<forall>h p s m. split_on (Latin CHR ''.'') (js ''..'') = [h, p, s] \<and> (h = [] \<or> p = [])
          \<and> json_parse ref_platform [] = Inl m
        \<longrightarrow> (\<exists>e. verifyJWT_try ref_platform amb_default (js ''..'') (Some (js ''k'')) no_verify_options
               = Inl e \<and> kind_of e = MalformedSegment_kind)"
    by (elim conjE)
  then have e: "\<exists>e. verifyJWT_try ref_platform amb_default (js ''..'') (Some (js ''k'')) no_verify_options
               = Inl e \<and> kind_of e = MalformedSegment_kind"
    using sp ref_parse_empty by blast
  show ?thesis
    by (rule conjI[OF secret_k conjI[OF l conjI[OF v conjI[OF sp conjI[OF ref_parse_empty e]]]]])
qed

theorem malformed_token_counterexample:
  "split_on (Latin CHR ''.'') (js ''a..c'') = [js ''a'', [], js ''c'']
   \<and> isValidJWTFormat (js ''a..c'') = False
   \<and> verifyJWT_try ref_platform amb_default (js ''a..c'') (Some (js ''k'')) no_verify_options
        = Inl Base64Error
   \<and> verifyJWT ref_platform amb_default (js ''a..c'') (Some (js ''k'')) no_verify_options
        = Inl (js ''Failed to verify JWT: The string to be decoded is not correctly encoded.'')"
proof -
  have a: "split_on (Latin CHR ''.'') (js ''a..c'') = [js ''a'', [], js ''c'']" by (simp add: js_def)
  have b: "isValidJWTFormat (js ''a..c'') = False" by (simp add: isValidJWTFormat_def js_def)
  have c: "verifyJWT_try ref_platform amb_default (js ''a..c'') (Some (js ''k'')) no_verify_options
        = Inl Base64Error"
    by code_simp
  then have d: "verifyJWT ref_platform amb_default (js ''a..c'') (Some (js ''k'')) no_verify_options
        = Inl (js ''Failed to verify JWT: The string to be decoded is not correctly encoded.'')"
    by (simp add: verifyJWT_def rethrow_def ref_platform_def js_concat)
  show ?thesis by (rule conjI[OF a conjI[OF b conjI[OF c d]]])
qed

end
